theory Spec2Isabelle
  imports Complex_Main
begin

section \<open>Strings and values of the host language\<close>

text \<open>
  Strings of the program are modelled as \<^typ>\<open>string\<close>. The program only inspects and
  rewrites ASCII characters (hyphen, dot, sign, digits, the letters of \<open>[A-Z]\<close>); case
  conversion is modelled on the ASCII letters and leaves every other character alone.
\<close>

definition lower_letters :: string where
  "lower_letters = ''abcdefghijklmnopqrstuvwxyz''"

definition upper_letters :: string where
  "upper_letters = ''ABCDEFGHIJKLMNOPQRSTUVWXYZ''"

definition digit_chars :: string where
  "digit_chars = ''0123456789''"

definition is_lower :: "char \<Rightarrow> bool" where
  "is_lower c = (c \<in> set lower_letters)"

definition is_upper :: "char \<Rightarrow> bool" where
  "is_upper c = (c \<in> set upper_letters)"

definition is_digit :: "char \<Rightarrow> bool" where
  "is_digit c = (c \<in> set digit_chars)"

definition toUpperCase :: "char \<Rightarrow> char" where
  "toUpperCase c = (case map_of (zip lower_letters upper_letters) c of Some u \<Rightarrow> u | None \<Rightarrow> c)"

definition toLowerCase :: "char \<Rightarrow> char" where
  "toLowerCase c = (case map_of (zip upper_letters lower_letters) c of Some l \<Rightarrow> l | None \<Rightarrow> c)"

text \<open>The dot of a regular expression matches every character but a line terminator.\<close>

definition line_terminator :: "char \<Rightarrow> bool" where
  "line_terminator c = (c = CHR 0x0A \<or> c = CHR 0x0D)"

text \<open>
  Numbers of the host language: the finite ones are kept exact, \<open>NaN\<close> is the result of
  reading a number off a string that has none. Comparisons with \<open>NaN\<close> are false.
\<close>

datatype jsnumber = Finite rat | NaN

fun num_ge :: "jsnumber \<Rightarrow> jsnumber \<Rightarrow> bool" where
  "num_ge (Finite a) (Finite b) = (a \<ge> b)"
| "num_ge _ _ = False"

fun num_lt :: "jsnumber \<Rightarrow> jsnumber \<Rightarrow> bool" where
  "num_lt (Finite a) (Finite b) = (a < b)"
| "num_lt _ _ = False"

text \<open>
  The dynamically typed values that parsers return and that end up in the option map and
  in the positional buffer. \<open>VNull\<close> is the value by which a parser rejects its input.
  \<open>VFunction n\<close> is a function of the host whose \<^verbatim>\<open>length\<close> is \<open>n\<close>, and
  \<open>VObject\<close> an object that has no \<^verbatim>\<open>length\<close>.
\<close>

datatype jsvalue =
    VUndefined
  | VNull
  | VBool bool
  | VNum jsnumber
  | VStr string
  | VArr "jsvalue list"
  | VFunction nat
  | VObject

section \<open>Name codec\<close>

text \<open>
  \<^verbatim>\<open>str.replace(/-./g, m => m[1].toUpperCase())\<close>: scanning from the left, a hyphen
  followed by a character that is not a line terminator is replaced by that character in
  upper case; matches do not overlap.
\<close>

fun toCamel :: "string \<Rightarrow> string" where
  "toCamel (c # d # cs) =
     (if c = CHR ''-'' \<and> \<not> line_terminator d then toUpperCase d # toCamel cs
      else c # toCamel (d # cs))"
| "toCamel cs = cs"

text \<open>\<^verbatim>\<open>str.replace(/[A-Z]/g, m => "-" + m.toLowerCase())\<close>\<close>

fun fromCamel :: "string \<Rightarrow> string" where
  "fromCamel [] = []"
| "fromCamel (c # cs) =
     (if is_upper c then CHR ''-'' # toLowerCase c # fromCamel cs else c # fromCamel cs)"

text \<open>
  The tokens of the round-trip property, in the words of the specification: no upper-case
  letter, and no two hyphens in a row.
\<close>

definition lowercase_token :: "string \<Rightarrow> bool" where
  "lowercase_token x = (list_all (\<lambda>c. \<not> is_upper c) x)"

fun no_consecutive_hyphens :: "string \<Rightarrow> bool" where
  "no_consecutive_hyphens (c # d # cs) =
     (\<not> (c = CHR ''-'' \<and> d = CHR ''-'') \<and> no_consecutive_hyphens (d # cs))"
| "no_consecutive_hyphens cs = True"

text \<open>Every hyphen is the last character or stands before a lower-case letter.\<close>

fun hyphens_before_letters :: "string \<Rightarrow> bool" where
  "hyphens_before_letters (c # d # cs) =
     ((c = CHR ''-'' \<longrightarrow> is_lower d) \<and> hyphens_before_letters (d # cs))"
| "hyphens_before_letters cs = True"

section \<open>Value parsers\<close>

text \<open>An optional sign \<^verbatim>\<open>[+-]?\<close> in front of something that cannot start with a sign.\<close>

fun strip_sign :: "string \<Rightarrow> string" where
  "strip_sign (c # cs) = (if c = CHR ''+'' \<or> c = CHR ''-'' then cs else c # cs)"
| "strip_sign [] = []"

definition negative :: "string \<Rightarrow> bool" where
  "negative s = (case s of c # _ \<Rightarrow> c = CHR ''-'' | [] \<Rightarrow> False)"

text \<open>\<^verbatim>\<open>\d+\<close> over a whole string.\<close>

definition digits :: "string \<Rightarrow> bool" where
  "digits s = (s \<noteq> [] \<and> list_all is_digit s)"

definition digit_value :: "char \<Rightarrow> int" where
  "digit_value c = (case map_of (zip digit_chars [0, 1, 2, 3, 4, 5, 6, 7, 8, 9]) c of
                      Some d \<Rightarrow> d | None \<Rightarrow> 0)"

definition decimal :: "string \<Rightarrow> int" where
  "decimal s = foldl (\<lambda>n c. 10 * n + digit_value c) 0 s"

text \<open>\<^verbatim>\<open>/^[+-]?\d+$/\<close>\<close>

definition integer_match :: "string \<Rightarrow> bool" where
  "integer_match s = digits (strip_sign s)"

text \<open>
  \<^verbatim>\<open>parseInt(value, 10)\<close> on a string that matched: the decimal value with its sign
  (kept exact here; the host rounds beyond \<open>2^53\<close>).
\<close>

definition parseInt :: "string \<Rightarrow> jsnumber" where
  "parseInt s = Finite (of_int ((if negative s then - 1 else 1) * decimal (strip_sign s)))"

definition integer :: "string \<Rightarrow> jsvalue" where
  "integer v = (if integer_match v then VNum (parseInt v) else VNull)"

text \<open>
  \<^verbatim>\<open>/^[+-]?[.]\d+|[+-]?\d+([.]\d+)?$/\<close>. The alternation binds weakest, so the expression
  has two alternatives: \<^verbatim>\<open>^[+-]?[.]\d+\<close>, tied to the start of the string only, and
  \<^verbatim>\<open>[+-]?\d+([.]\d+)?$\<close>, tied to its end only. \<^verbatim>\<open>match\<close> searches for either at
  every position.
\<close>

text \<open>\<^verbatim>\<open>^[+-]?[.]\d+\<close>: a prefix of the string.\<close>

definition leading_dot_prefix :: "string \<Rightarrow> bool" where
  "leading_dot_prefix s =
     (case strip_sign s of
        c # d # _ \<Rightarrow> c = CHR ''.'' \<and> is_digit d
      | _ \<Rightarrow> False)"

text \<open>\<^verbatim>\<open>[+-]?\d+([.]\d+)?\<close> over a whole string.\<close>

definition integer_fraction :: "string \<Rightarrow> bool" where
  "integer_fraction s =
     (let t = strip_sign s; ds = takeWhile is_digit t; r = dropWhile is_digit t
      in ds \<noteq> [] \<and> (case r of [] \<Rightarrow> True | c # f \<Rightarrow> c = CHR ''.'' \<and> digits f))"

text \<open>The strings that start at some position of \<open>s\<close> and run to its end.\<close>

fun suffixes_from :: "string \<Rightarrow> string list" where
  "suffixes_from [] = [[]]"
| "suffixes_from (c # cs) = (c # cs) # suffixes_from cs"

definition number_match :: "string \<Rightarrow> bool" where
  "number_match s = (leading_dot_prefix s \<or> list_ex integer_fraction (suffixes_from s))"

text \<open>
  \<^verbatim>\<open>parseFloat\<close> is a function of the host language and a parameter here; it returns a
  number for every string (\<open>NaN\<close> where the string starts with none).
\<close>

definition number :: "(string \<Rightarrow> jsnumber) \<Rightarrow> string \<Rightarrow> jsvalue" where
  "number parseFloat v = (if number_match v then VNum (parseFloat v) else VNull)"

text \<open>
  \<^verbatim>\<open>range(min, max?, integer = false)\<close>: the bounds are numbers, the upper one may be
  left out.
\<close>

definition range_parser ::
  "(string \<Rightarrow> jsnumber) \<Rightarrow> jsnumber \<Rightarrow> jsnumber option \<Rightarrow> bool \<Rightarrow> string \<Rightarrow> jsvalue" where
  "range_parser parseFloat mn mx integer_only v =
     (case (if integer_only then integer v else number parseFloat v) of
        VNum n \<Rightarrow>
          (if num_ge n mn \<and> (case mx of None \<Rightarrow> True | Some m \<Rightarrow> num_lt n m)
           then VNum n else VNull)
      | _ \<Rightarrow> VNull)"

definition enum_parser :: "string list \<Rightarrow> string \<Rightarrow> jsvalue" where
  "enum_parser values v = (if v \<in> set values then VStr v else VNull)"

text \<open>
  The shape of a number in the words of the specification: an optional sign, then either
  a leading-dot decimal or an integer with an optional fractional part, and nothing else.
\<close>

definition number_shape :: "string \<Rightarrow> bool" where
  "number_shape s =
     (let t = strip_sign s
      in (case t of c # f \<Rightarrow> c = CHR ''.'' \<and> digits f | [] \<Rightarrow> False) \<or> integer_fraction s)"


section \<open>Specification model\<close>

text \<open>Callbacks are opaque; a handler is known by its name only.\<close>

datatype handler = Handler string

text \<open>
  \<^verbatim>\<open>CliOption\<close> and \<^verbatim>\<open>CliParameter\<close>: the code reads every field of every shape, so
  the records have all of them; an absent string or function is \<open>None\<close>, an absent flag
  is \<open>False\<close>.
\<close>

record CliOption =
  opt_name :: string
  opt_symbol :: "string option"
  opt_help :: "string option"
  opt_boolean :: bool
  opt_handler :: "handler option"
  opt_valueName :: "string option"
  opt_parser :: "(string \<Rightarrow> jsvalue) option"
  opt_default :: "string option"
  opt_repeatable :: bool
  opt_required :: bool

record CliParameter =
  par_name :: string
  par_help :: "string option"
  par_parser :: "(string \<Rightarrow> jsvalue) option"
  par_default :: "string option"
  par_repeatable :: bool
  par_optional :: bool

text \<open>An object literal that sets the name only.\<close>

definition option_named :: "string \<Rightarrow> CliOption" where
  "option_named n =
     \<lparr>opt_name = n, opt_symbol = None, opt_help = None, opt_boolean = False,
      opt_handler = None, opt_valueName = None, opt_parser = None, opt_default = None,
      opt_repeatable = False, opt_required = False\<rparr>"

definition parameter_named :: "string \<Rightarrow> CliParameter" where
  "parameter_named n =
     \<lparr>par_name = n, par_help = None, par_parser = None, par_default = None,
      par_repeatable = False, par_optional = False\<rparr>"

text \<open>
  \<^verbatim>\<open>CliCommand\<close> is one of \<^verbatim>\<open>SubCommand\<close> (it has \<^verbatim>\<open>commands\<close>) and
  \<^verbatim>\<open>ActionCommand\<close> (it has a \<^verbatim>\<open>handler\<close> and may have \<^verbatim>\<open>parameters\<close>).
\<close>

datatype CliCommand =
    SubCommand
      (cmd_name: string) (cmd_help: "string option") (cmd_extendedHelp: "string option")
      (cmd_options: "CliOption list option") (cmd_commands: "CliCommand list")
  | ActionCommand
      (cmd_name: string) (cmd_help: "string option") (cmd_extendedHelp: "string option")
      (cmd_options: "CliOption list option") (cmd_parameters: "CliParameter list option")
      (cmd_handler: handler)

text \<open>\<^verbatim>\<open>if (command.options) for (const option of command.options)\<close>\<close>

definition options_of :: "CliCommand \<Rightarrow> CliOption list" where
  "options_of command = (case cmd_options command of None \<Rightarrow> [] | Some opts \<Rightarrow> opts)"

datatype CliParseError = CliParseError (error_path: "CliCommand list") (error_message: string)

text \<open>
  The option map \<^verbatim>\<open>options\<close>, the object \<^verbatim>\<open>{}\<close> used as a dictionary. The map
  holds its own properties: an assignment \<^verbatim>\<open>options[name] = v\<close> makes \<open>name\<close> an own
  property.
\<close>

type_synonym OptionValues = "string \<rightharpoonup> jsvalue"

text \<open>
  The object also inherits the properties of \<^verbatim>\<open>Object.prototype\<close>, which a read
  \<^verbatim>\<open>options[name]\<close> and the test \<^verbatim>\<open>name in options\<close> find when the object has no
  own property of that name: eleven functions, here with their \<^verbatim>\<open>length\<close>, and the
  accessor \<^verbatim>\<open>__proto__\<close>, which reads as the prototype, an object.
\<close>

definition object_prototype :: "(string \<times> jsvalue) list" where
  "object_prototype =
     [(''constructor'', VFunction 1),
      (''__defineGetter__'', VFunction 2),
      (''__defineSetter__'', VFunction 2),
      (''hasOwnProperty'', VFunction 1),
      (''__lookupGetter__'', VFunction 1),
      (''__lookupSetter__'', VFunction 1),
      (''isPrototypeOf'', VFunction 1),
      (''propertyIsEnumerable'', VFunction 1),
      (''toString'', VFunction 0),
      (''valueOf'', VFunction 0),
      (''__proto__'', VObject),
      (''toLocaleString'', VFunction 0)]"

text \<open>
  \<^verbatim>\<open>options[name]\<close> as a read: the own property, else the inherited one; \<open>None\<close> when
  \<^verbatim>\<open>name in options\<close> is false (the read is \<^verbatim>\<open>undefined\<close> then).
\<close>

definition property :: "OptionValues \<Rightarrow> string \<Rightarrow> jsvalue option" where
  "property options n = (case options n of Some v \<Rightarrow> Some v | None \<Rightarrow> map_of object_prototype n)"

text \<open>
  The accessor \<^verbatim>\<open>__proto__\<close> is the one inherited property that an assignment does not
  turn into an own property: its setter changes the prototype of the object, or does
  nothing. The map is the option map of a parse in which no option has that name.
\<close>

definition own_property_name :: "string \<Rightarrow> bool" where
  "own_property_name n = (n \<noteq> ''__proto__'')"

text \<open>
  What a parse ends in: a \<^verbatim>\<open>CliParseError\<close> is thrown, the host raises a
  \<^verbatim>\<open>TypeError\<close> (a method of a value that has none), or a handler is called and its
  result returned.
\<close>

datatype call =
    OptionCall handler "CliCommand list"
  | OptionValueCall handler jsvalue "CliCommand list"
  | CommandCall handler "jsvalue list" OptionValues "CliCommand list"

datatype outcome = Thrown CliParseError | TypeError | Called call

text \<open>A string is truthy when it is there and not empty.\<close>

definition truthy :: "string option \<Rightarrow> bool" where
  "truthy s = (case s of None \<Rightarrow> False | Some t \<Rightarrow> t \<noteq> [])"

definition quoted :: "string \<Rightarrow> string" where
  "quoted s = CHR 0x22 # s @ [CHR 0x22]"

section \<open>Resolver\<close>

subsection \<open>Priming on entering a command\<close>

definition apply_parser :: "(string \<Rightarrow> jsvalue) option \<Rightarrow> string \<Rightarrow> jsvalue" where
  "apply_parser p raw = (case p of Some f \<Rightarrow> f raw | None \<Rightarrow> VStr raw)"

text \<open>The body of the loop over \<^verbatim>\<open>command.options\<close> (lines 205 to 216).\<close>

definition prime_option :: "OptionValues \<Rightarrow> CliOption \<Rightarrow> OptionValues" where
  "prime_option options opt =
     (if truthy (opt_default opt) then
        options(opt_name opt \<mapsto> apply_parser (opt_parser opt) (the (opt_default opt)))
      else if opt_repeatable opt then options(opt_name opt \<mapsto> VArr [])
      else if opt_boolean opt \<and> opt_handler opt = None then options(opt_name opt \<mapsto> VBool False)
      else options)"

definition prime_options :: "CliCommand \<Rightarrow> OptionValues \<Rightarrow> OptionValues" where
  "prime_options command options = foldl prime_option options (options_of command)"

text \<open>The body of the loop over \<^verbatim>\<open>cmd.parameters\<close> (lines 225 to 241).\<close>

definition prime_parameter :: "CliParameter \<Rightarrow> jsvalue" where
  "prime_parameter p =
     (if truthy (par_default p) then apply_parser (par_parser p) (the (par_default p))
      else if par_repeatable p then VArr []
      else if par_optional p then VUndefined
      else VNull)"

fun prime_parameters :: "CliCommand \<Rightarrow> jsvalue list" where
  "prime_parameters (ActionCommand _ _ _ _ (Some ps) _) = map prime_parameter ps"
| "prime_parameters _ = []"

subsection \<open>One token\<close>

text \<open>
  The search for an option over the commands of the path, last one first, stopping at
  the first command that has a match; \<open>find_option\<close> takes the reversed path.
\<close>

fun find_option :: "(CliOption \<Rightarrow> bool) \<Rightarrow> CliCommand list \<Rightarrow> CliOption option" where
  "find_option P [] = None"
| "find_option P (c # cs) =
     (case List.find P (options_of c) of Some opt \<Rightarrow> Some opt | None \<Rightarrow> find_option P cs)"

text \<open>What one turn of the loop over the arguments does.\<close>

datatype step =
    Stop outcome
  | Descend "string list" CliCommand
  | Continue "string list" OptionValues "jsvalue list" nat

text \<open>Lines 256 to 276: the option that \<open>arg\<close> names, or the error.\<close>

definition match_option :: "string \<Rightarrow> CliCommand list \<Rightarrow> CliParseError + CliOption" where
  "match_option arg path =
     (if 2 \<le> length arg \<and> arg ! 1 = CHR ''-'' then
        (case find_option (\<lambda>opt. opt_name opt = toCamel (drop 2 arg)) (rev path) of
           None \<Rightarrow> Inl (CliParseError path (''unknown option '' @ quoted arg))
         | Some opt \<Rightarrow> Inr opt)
      else if length arg = 2 then
        (case find_option (\<lambda>opt. opt_symbol opt = Some [arg ! 1]) (rev path) of
           None \<Rightarrow> Inl (CliParseError path (''unknown option '' @ quoted arg))
         | Some opt \<Rightarrow> Inr opt)
      else Inl (CliParseError path (''invalid argument '' @ quoted arg)))"

text \<open>
  Lines 279 to 312: the option is applied; \<open>rest\<close> are the arguments after \<open>arg\<close>.
  \<^verbatim>\<open>options[option.name].push(value)\<close> is a \<^verbatim>\<open>TypeError\<close> unless the value read is an
  array; no inherited property is one, so the own property decides.
\<close>

definition apply_option ::
  "string \<Rightarrow> string list \<Rightarrow> CliOption \<Rightarrow> CliCommand list \<Rightarrow> OptionValues \<Rightarrow> jsvalue list \<Rightarrow> nat \<Rightarrow> step" where
  "apply_option arg rest opt path options params index =
     (if opt_boolean opt then
        (case opt_handler opt of
           Some h \<Rightarrow> Stop (Called (OptionCall h path))
         | None \<Rightarrow> Continue rest (options(opt_name opt \<mapsto> VBool True)) params index)
      else
        (case rest of
           [] \<Rightarrow> Stop (Thrown (CliParseError path
                   (''option '' @ quoted arg @ '' requires a value'')))
         | raw # rest' \<Rightarrow>
             (let v = apply_parser (opt_parser opt) raw in
              if v = VNull then
                Stop (Thrown (CliParseError path
                  (''invalid value '' @ quoted raw @ '' for option '' @ quoted arg)))
              else
                (case opt_handler opt of
                   Some h \<Rightarrow> Stop (Called (OptionValueCall h v path))
                 | None \<Rightarrow>
                     if opt_repeatable opt then
                       (case options (opt_name opt) of
                          Some (VArr xs) \<Rightarrow>
                            Continue rest' (options(opt_name opt \<mapsto> VArr (xs @ [v]))) params index
                        | _ \<Rightarrow> Stop TypeError)
                     else Continue rest' (options(opt_name opt \<mapsto> v)) params index))))"

text \<open>Lines 329 to 351: a positional value for an action command.\<close>

definition apply_parameter ::
  "string \<Rightarrow> string list \<Rightarrow> CliParameter list option \<Rightarrow> CliCommand list \<Rightarrow> OptionValues \<Rightarrow>
   jsvalue list \<Rightarrow> nat \<Rightarrow> step" where
  "apply_parameter arg rest ps path options params index =
     (case ps of
        None \<Rightarrow> Stop (Thrown (CliParseError path (''unexpected Parameter '' @ quoted arg)))
      | Some ps \<Rightarrow>
          if index \<ge> length ps then
            Stop (Thrown (CliParseError path (''unexpected Parameter '' @ quoted arg)))
          else
            (let p = ps ! index; v = apply_parser (par_parser p) arg in
             if v = VNull then
               Stop (Thrown (CliParseError path
                 (''invalid value '' @ quoted arg @ '' for Parameter '' @
                  quoted (fromCamel (par_name p)))))
             else if par_repeatable p then
               (case params ! index of
                  VArr xs \<Rightarrow> Continue rest options (params[index := VArr (xs @ [v])]) index
                | _ \<Rightarrow> Stop TypeError)
             else Continue rest options (params[index := v]) (index + 1)))"

text \<open>The body of the loop, lines 250 to 352.\<close>

definition step ::
  "string \<Rightarrow> string list \<Rightarrow> CliCommand \<Rightarrow> CliCommand list \<Rightarrow> OptionValues \<Rightarrow> jsvalue list \<Rightarrow> nat \<Rightarrow> step" where
  "step arg rest command path options params index =
     (if arg \<noteq> [] \<and> hd arg = CHR ''-'' then
        (case match_option arg path of
           Inl e \<Rightarrow> Stop (Thrown e)
         | Inr opt \<Rightarrow> apply_option arg rest opt path options params index)
      else
        (case command of
           SubCommand _ _ _ _ cs \<Rightarrow>
             (case List.find (\<lambda>x. cmd_name x = toCamel arg) cs of
                None \<Rightarrow> Stop (Thrown (CliParseError path (''unrecognized command '' @ quoted arg)))
              | Some next \<Rightarrow> Descend rest next)
         | ActionCommand _ _ _ _ ps _ \<Rightarrow> apply_parameter arg rest ps path options params index))"

subsection \<open>End of the arguments\<close>

text \<open>
  \<^verbatim>\<open>x.length == 0\<close> for a value of the buffer or of the option map: \<open>None\<close> is the
  \<^verbatim>\<open>TypeError\<close> of reading a property of \<^verbatim>\<open>null\<close> or \<^verbatim>\<open>undefined\<close>; booleans,
  numbers and other objects have no length, and \<^verbatim>\<open>undefined == 0\<close> is false.
\<close>

fun length_is_zero :: "jsvalue \<Rightarrow> bool option" where
  "length_is_zero (VArr xs) = Some (xs = [])"
| "length_is_zero (VStr s) = Some (s = [])"
| "length_is_zero (VFunction n) = Some (n = 0)"
| "length_is_zero VNull = None"
| "length_is_zero VUndefined = None"
| "length_is_zero _ = Some False"

text \<open>\<^verbatim>\<open>parameters.indexOf(null)\<close>, \<open>None\<close> for \<open>-1\<close>.\<close>

fun indexOfNull :: "jsvalue list \<Rightarrow> nat option" where
  "indexOfNull [] = None"
| "indexOfNull (v # vs) =
     (if v = VNull then Some 0 else map_option Suc (indexOfNull vs))"

definition missing_parameter :: "CliCommand list \<Rightarrow> CliParameter \<Rightarrow> outcome" where
  "missing_parameter path p =
     Thrown (CliParseError path
       (''no value provided for required Parameter '' @ quoted (fromCamel (par_name p))))"

text \<open>Lines 362 to 374; \<open>None\<close> when no parameter is missing.\<close>

definition check_parameters ::
  "CliCommand list \<Rightarrow> CliParameter list option \<Rightarrow> jsvalue list \<Rightarrow> outcome option" where
  "check_parameters path ps params =
     (case ps of
        None \<Rightarrow> None
      | Some ps \<Rightarrow>
          if length ps > 0 then
            (let last = length ps - 1 in
             case indexOfNull params of
               Some i \<Rightarrow> Some (missing_parameter path (ps ! i))
             | None \<Rightarrow>
                 if par_repeatable (ps ! last) \<and> \<not> par_optional (ps ! last) then
                   (case length_is_zero (params ! last) of
                      None \<Rightarrow> Some TypeError
                    | Some True \<Rightarrow> Some (missing_parameter path (ps ! last))
                    | Some False \<Rightarrow> None)
                 else None)
          else None)"

definition missing_option :: "CliCommand list \<Rightarrow> CliOption \<Rightarrow> outcome" where
  "missing_option path opt =
     Thrown (CliParseError path
       (''missing required option '' @ quoted (''--'' @ fromCamel (opt_name opt))))"

text \<open>
  Lines 380 to 384, over the options of one command. The test
  \<^verbatim>\<open>option.name in options\<close> and the read \<^verbatim>\<open>options[option.name]\<close> see the inherited
  properties too.
\<close>

fun check_required :: "CliCommand list \<Rightarrow> OptionValues \<Rightarrow> CliOption list \<Rightarrow> outcome option" where
  "check_required path options [] = None"
| "check_required path options (opt # opts) =
     (if opt_required opt then
        (case property options (opt_name opt) of
           None \<Rightarrow> Some (missing_option path opt)
         | Some v \<Rightarrow>
             if opt_repeatable opt then
               (case length_is_zero v of
                  None \<Rightarrow> Some TypeError
                | Some True \<Rightarrow> Some (missing_option path opt)
                | Some False \<Rightarrow> check_required path options opts)
             else check_required path options opts)
      else check_required path options opts)"

text \<open>Lines 378 to 386, over the commands \<open>cs\<close> of the path, the root first.\<close>

fun check_options :: "CliCommand list \<Rightarrow> OptionValues \<Rightarrow> CliCommand list \<Rightarrow> outcome option" where
  "check_options path options [] = None"
| "check_options path options (c # cs) =
     (case check_required path options (options_of c) of
        Some r \<Rightarrow> Some r
      | None \<Rightarrow> check_options path options cs)"

text \<open>Lines 356 to 393.\<close>

fun finish :: "CliCommand \<Rightarrow> CliCommand list \<Rightarrow> OptionValues \<Rightarrow> jsvalue list \<Rightarrow> outcome" where
  "finish (ActionCommand _ _ _ _ ps h) path options params =
     (case check_parameters path ps params of
        Some r \<Rightarrow> r
      | None \<Rightarrow>
          (case check_options path options path of
             Some r \<Rightarrow> r
           | None \<Rightarrow> Called (CommandCall h params options path)))"
| "finish (SubCommand _ _ _ _ _) path options params = Thrown (CliParseError path [])"

subsection \<open>The parse\<close>

text \<open>
  \<^verbatim>\<open>parserRun\<close> and its loop over the arguments. The loop ends at a \<^verbatim>\<open>return\<close> or a
  \<^verbatim>\<open>throw\<close>, starts over in a child command with the arguments that are left
  (\<^verbatim>\<open>return parserRun(args.slice(i + 1), next, path, options)\<close>), or goes on with the
  next argument. Every turn leaves fewer arguments, which is the measure of termination.
\<close>

function parserRun ::
    "string list \<Rightarrow> CliCommand \<Rightarrow> CliCommand list \<Rightarrow> OptionValues \<Rightarrow> outcome"
  and loop ::
    "string list \<Rightarrow> CliCommand \<Rightarrow> CliCommand list \<Rightarrow> OptionValues \<Rightarrow> jsvalue list \<Rightarrow> nat \<Rightarrow> outcome"
where
  "parserRun args command path options =
     loop args command (path @ [command]) (prime_options command options)
       (prime_parameters command) 0"
| "loop [] command path options params index = finish command path options params"
| "loop (arg # rest) command path options params index =
     (case step arg rest command path options params index of
        Stop r \<Rightarrow> r
      | Descend rest' next \<Rightarrow> parserRun rest' next path options
      | Continue rest' options' params' index' \<Rightarrow> loop rest' command path options' params' index')"
  by pat_completeness auto
termination
  by (relation "measure (\<lambda>x. case x of Inl (args, _) \<Rightarrow> 2 * length args + 1
                                   | Inr (args, _) \<Rightarrow> 2 * length args)")
     (auto simp: step_def apply_option_def apply_parameter_def Let_def
        split: if_splits sum.splits option.splits list.splits CliCommand.splits jsvalue.splits)


section \<open>Help renderer\<close>

definition or_empty :: "string option \<Rightarrow> string" where
  "or_empty s = (case s of None \<Rightarrow> [] | Some t \<Rightarrow> t)"

definition padEnd :: "nat \<Rightarrow> string \<Rightarrow> string" where
  "padEnd n s = s @ replicate (n - length s) CHR '' ''"

fun join :: "string \<Rightarrow> string list \<Rightarrow> string" where
  "join sep [] = []"
| "join sep [x] = x"
| "join sep (x # y # ys) = x @ sep @ join sep (y # ys)"

definition newline :: string where
  "newline = [CHR 0x0A]"

definition helpOption :: "CliOption \<Rightarrow> string" where
  "helpOption opt =
     (let base = (if truthy (opt_symbol opt) then ''-'' @ the (opt_symbol opt) @ '', '' else [])
                 @ ''--'' @ fromCamel (opt_name opt)
      in if opt_boolean opt then base
         else base @ '' '' @
           ''<'' @ (if truthy (opt_valueName opt) then the (opt_valueName opt) else ''value'')
           @ (if truthy (opt_default opt) then ''='' @ the (opt_default opt) else [])
           @ ''>'' @ (if opt_repeatable opt then '', +'' else []))"

definition helpParameter :: "CliParameter \<Rightarrow> string" where
  "helpParameter p =
     (let v = fromCamel (par_name p)
              @ (if truthy (par_default p) then ''='' @ the (par_default p) else [])
      in (if par_optional p \<or> truthy (par_default p) then ''['' @ v @ '']'' else ''<'' @ v @ ''>'')
         @ (if par_repeatable p then ''+'' else []))"

type_synonym pair = "string \<times> string"
type_synonym group = "string \<times> pair list"

text \<open>
  The state of the scan of \<^verbatim>\<open>helpOptions\<close>: \<^verbatim>\<open>padding\<close>, the pairs of
  \<^verbatim>\<open>groups[0]\<close> (the required options), and the groups pushed after it.
\<close>

type_synonym scan = "nat \<times> pair list \<times> group list"

text \<open>
  Lines 131 to 134, for one option: the third component is the \<^verbatim>\<open>pairs\<close> of the
  command being scanned.
\<close>

definition scan_option :: "nat \<times> pair list \<times> pair list \<Rightarrow> CliOption \<Rightarrow> nat \<times> pair list \<times> pair list" where
  "scan_option st opt =
     (case st of (padding, required, pairs) \<Rightarrow>
        (let base = helpOption opt; entry = (base, or_empty (opt_help opt))
         in (max (length base) padding,
             if opt_required opt then required @ [entry] else required,
             if opt_required opt then pairs else pairs @ [entry])))"

text \<open>Lines 138 to 144.\<close>

definition group_name :: "CliCommand list \<Rightarrow> nat \<Rightarrow> string" where
  "group_name path i =
     (if i = length path - 1 then ''Options''
      else if i = 0 then ''Global options''
      else ''Inherited options ('' @ fromCamel (cmd_name (path ! i)) @ '')'')"

text \<open>Lines 125 to 146: the body of the loop over the path, at index \<open>i\<close>.\<close>

definition scan_command :: "CliCommand list \<Rightarrow> nat \<Rightarrow> scan \<Rightarrow> scan" where
  "scan_command path i st =
     (case st of (padding, required, groups) \<Rightarrow>
        (case cmd_options (path ! i) of
           None \<Rightarrow> st
         | Some opts \<Rightarrow>
             (case foldl scan_option (padding, required, []) opts of
                (padding', required', pairs) \<Rightarrow>
                  (padding', required',
                   if pairs \<noteq> [] then groups @ [(group_name path i, pairs)] else groups))))"

text \<open>The loop \<^verbatim>\<open>for (let i = path.length - 1; i >= 0; i -= 1)\<close>, with \<open>n\<close> turns left.\<close>

fun scan_path :: "CliCommand list \<Rightarrow> nat \<Rightarrow> scan \<Rightarrow> scan" where
  "scan_path path 0 st = st"
| "scan_path path (Suc i) st = scan_path path i (scan_command path i st)"

text \<open>Lines 117 to 153: the padding and the groups that are rendered.\<close>

definition helpOptions_groups :: "CliCommand list \<Rightarrow> nat \<times> group list" where
  "helpOptions_groups path =
     (case scan_path path (length path) (0, [], []) of
        (padding, required, groups) \<Rightarrow>
          (min padding 80,
           if required = [] then groups else (''Required options'', required) # groups))"

definition render_pair :: "nat \<Rightarrow> pair \<Rightarrow> string" where
  "render_pair padding e = ''  '' @ padEnd padding (fst e) @ '' : '' @ snd e"

definition render_group :: "nat \<Rightarrow> group \<Rightarrow> string" where
  "render_group padding g =
     newline @ newline @ fst g @ '':'' @ newline @ join newline (map (render_pair padding) (snd g))"

definition helpOptions :: "CliCommand list \<Rightarrow> string" where
  "helpOptions path =
     (case helpOptions_groups path of
        (padding, groups) \<Rightarrow> concat (map (render_group padding) groups))"

fun helpCommand :: "CliCommand \<Rightarrow> string" where
  "helpCommand (ActionCommand n _ _ _ (Some ps) _) =
     fromCamel n @ '' '' @ join '' '' (map helpParameter ps)"
| "helpCommand (ActionCommand n _ _ _ None _) = fromCamel n"
| "helpCommand (SubCommand n _ _ _ _) = fromCamel n @ '' (...)''"

definition help_parameters :: "CliParameter list \<Rightarrow> string" where
  "help_parameters ps =
     (let padding = foldl (\<lambda>a b. max a (length (fromCamel (par_name b)))) 0 ps
      in newline @ newline @ ''Parameters:'' @ newline @
         join newline
           (map (\<lambda>p. ''  '' @ padEnd padding (fromCamel (par_name p)) @ '' : '' @ or_empty (par_help p))
              ps))"

definition help_commands :: "CliCommand list \<Rightarrow> string" where
  "help_commands cs =
     (let entries = map (\<lambda>c. (helpCommand c, or_empty (cmd_help c))) cs;
          padding = foldl (\<lambda>a b. max a (length (fst b))) 0 entries
      in newline @ newline @ ''Commands:'' @ newline @
         join newline (map (render_pair padding) entries))"

text \<open>
  \<^verbatim>\<open>help(path)\<close>, lines 173 to 197 (\<open>help\<close> is a word of the proof language). The path of an error is never empty; on an empty
  path the host raises a \<^verbatim>\<open>TypeError\<close>, which is \<open>None\<close> here.
\<close>

definition help_path :: "CliCommand list \<Rightarrow> string option" where
  "help_path path =
     (if path = [] then None
      else
        (let command = last path in
         Some (''usage: ''
           @ (if length path > 1
              then join '' '' (map (\<lambda>c. fromCamel (cmd_name c)) (butlast path)) @ '' ''
              else [])
           @ helpCommand command
           @ (if truthy (cmd_help command) then newline @ newline @ the (cmd_help command) else [])
           @ (if truthy (cmd_extendedHelp command)
              then newline @ newline @ the (cmd_extendedHelp command) else [])
           @ (case command of
                ActionCommand _ _ _ _ (Some ps) _ \<Rightarrow> help_parameters ps
              | ActionCommand _ _ _ _ None _ \<Rightarrow> []
              | SubCommand _ _ _ _ cs \<Rightarrow> help_commands cs)
           @ helpOptions path)))"

section \<open>Entry facade\<close>

datatype console = ConsoleError string | ConsoleInfo string

text \<open>
  How \<^verbatim>\<open>run\<close> ends: it returns, it returns what the handler it called returned, or an
  exception other than \<^verbatim>\<open>CliParseError\<close> leaves it.
\<close>

datatype ending = Returned | Handled call | Uncaught

text \<open>\<^verbatim>\<open>CliMan.run\<close>, lines 403 to 416: what is written to the console, and the ending.\<close>

definition run :: "CliCommand \<Rightarrow> string list \<Rightarrow> console list \<times> ending" where
  "run config args =
     (case parserRun args config [] Map.empty of
        Called c \<Rightarrow> ([], Handled c)
      | TypeError \<Rightarrow> ([], Uncaught)
      | Thrown e \<Rightarrow>
          (let written =
                 (if error_message e \<noteq> []
                  then [ConsoleError (''error: '' @ error_message e @ newline)] else [])
           in case help_path (error_path e) of
                None \<Rightarrow> (written, Uncaught)
              | Some usage \<Rightarrow> (written @ [ConsoleInfo usage], Returned)))"

text \<open>\<^verbatim>\<open>runNoWrapper\<close>, lines 418 to 420.\<close>

definition runNoWrapper :: "CliCommand \<Rightarrow> string list \<Rightarrow> outcome" where
  "runNoWrapper config args = parserRun args config [] Map.empty"

section \<open>The example of the repository\<close>

text \<open>
  \<^verbatim>\<open>examples/forest.ts\<close>. The parser \<^verbatim>\<open>range(1, 10, true)\<close> reads integers only, so
  the function that reads floating numbers is left as a parameter.
\<close>

definition tree :: "(string \<Rightarrow> jsnumber) \<Rightarrow> CliCommand" where
  "tree parseFloat =
     ActionCommand ''tree'' (Some ''add a tree(s) to a forest sector'') None
       (Some [
          (option_named ''type'')
            \<lparr>opt_symbol := Some ''t'', opt_valueName := Some ''TYPE'', opt_default := Some ''pine'',
             opt_parser := Some (enum_parser [''pine'', ''oak'', ''maple'', ''willow'']),
             opt_help := Some ''type of tree to add''\<rparr>,
          (option_named ''count'')
            \<lparr>opt_valueName := Some ''N'', opt_symbol := Some ''c'', opt_default := Some ''1'',
             opt_parser := Some (range_parser parseFloat (Finite 1) (Some (Finite 10)) True),
             opt_help := Some ''amount of trees to add (max 10)''\<rparr>,
          (option_named ''useFertilizer'')
            \<lparr>opt_symbol := Some ''f'', opt_valueName := Some ''NAME'', opt_repeatable := True,
             opt_help := Some ''use a fertilizer during planting, can be repeated to use multiple fertilizers''\<rparr>])
       None (Handler ''printArgs'')"

definition animal :: CliCommand where
  "animal =
     ActionCommand ''animal'' (Some ''add an animal(s) to a forest sector'') None None
       (Some [
          (parameter_named ''species'')
            \<lparr>par_repeatable := True, par_optional := True,
             par_help := Some ''specie of the specimen to add, multiple values can be passed''\<rparr>])
       (Handler ''printArgs'')"

definition add :: "(string \<Rightarrow> jsnumber) \<Rightarrow> CliCommand" where
  "add parseFloat =
     SubCommand ''add'' (Some ''add objects to the forest'') None
       (Some [
          (option_named ''dryRun'')
            \<lparr>opt_help := Some ''to a test run without changing any actual state'',
             opt_boolean := True\<rparr>,
          (option_named ''sectorId'')
            \<lparr>opt_symbol := Some ''s'',
             opt_help := Some ''destination forest sector to add object'',
             opt_parser := Some integer, opt_required := True\<rparr>])
       [tree parseFloat, animal]"

definition move :: CliCommand where
  "move =
     ActionCommand ''move'' (Some ''move objects between forest sectors'')
       (Some ''Warning! Operator must make sure the dentation forest sector has correct habitat for the moved object!'')
       (Some [
          (option_named ''all'')
            \<lparr>opt_symbol := Some ''a'',
             opt_help := Some ''when source ambiguous move all matching objects instead of failing'',
             opt_boolean := True\<rparr>])
       (Some [
          (parameter_named ''object'')\<lparr>par_help := Some ''name of object to be moved''\<rparr>,
          (parameter_named ''destination'')
            \<lparr>par_help := Some ''destination sector id'', par_default := Some ''1'',
             par_parser := Some integer\<rparr>,
          (parameter_named ''source'')
            \<lparr>par_help := Some ''source sector id, can be omitted when object is present only in one sector or if --all flag is used'',
             par_optional := True, par_parser := Some integer\<rparr>])
       (Handler ''printArgs'')"

definition forest :: "(string \<Rightarrow> jsnumber) \<Rightarrow> CliCommand" where
  "forest parseFloat =
     SubCommand ''forest'' (Some ''national forest manager cli'') None
       (Some [
          (option_named ''help'')
            \<lparr>opt_symbol := Some ''h'', opt_help := Some ''display help and exit'',
             opt_boolean := True, opt_handler := Some (Handler ''CliMan.help'')\<rparr>,
          (option_named ''version'')
            \<lparr>opt_help := Some ''display application version and exit'',
             opt_handler := Some (Handler ''version''), opt_boolean := True\<rparr>,
          (option_named ''verbose'')
            \<lparr>opt_symbol := Some ''v'', opt_help := Some ''enable verbose output'',
             opt_boolean := True\<rparr>])
       [add parseFloat, move]"


section \<open>Auxiliary notions for the properties\<close>

text \<open>The options that get an entry when their command is entered (lines 206 to 215).\<close>

definition primes :: "CliOption \<Rightarrow> bool" where
  "primes opt = (truthy (opt_default opt) \<or> opt_repeatable opt
                 \<or> (opt_boolean opt \<and> opt_handler opt = None))"

definition primed_names :: "CliCommand \<Rightarrow> string set" where
  "primed_names command = set (map opt_name (filter primes (options_of command)))"

text \<open>
  A command \<open>root\<close> with a plain option \<open>count\<close> and a flag \<open>all\<close>, and below it
  an action command \<open>sub\<close> with an option \<open>count\<close> of its own, default \<open>1\<close>.
\<close>

definition shadow_leaf :: CliCommand where
  "shadow_leaf =
     ActionCommand ''sub'' None None
       (Some [(option_named ''count'')\<lparr>opt_default := Some ''1''\<rparr>]) None (Handler ''sub'')"

definition shadow_root :: CliCommand where
  "shadow_root =
     SubCommand ''root'' None None
       (Some [option_named ''count'', (option_named ''all'')\<lparr>opt_boolean := True\<rparr>])
       [shadow_leaf]"

text \<open>
  The value that priming gives an option, in the words of the specification: an option
  with a (non-empty) default gets the parser applied to the default, or the default as
  it is when it has no parser; without default, a repeatable option gets the empty
  collection, and a boolean option without handler gets \<open>False\<close>.
\<close>

definition priming_value :: "CliOption \<Rightarrow> jsvalue" where
  "priming_value opt =
     (if opt_default opt \<noteq> None \<and> opt_default opt \<noteq> Some [] then
        (case opt_parser opt of
           Some p \<Rightarrow> p (the (opt_default opt))
         | None \<Rightarrow> VStr (the (opt_default opt)))
      else if opt_repeatable opt then VArr []
      else VBool False)"

text \<open>The last option of the command that gets an entry under the name \<open>n\<close>.\<close>

definition last_primed :: "CliCommand \<Rightarrow> string \<Rightarrow> CliOption" where
  "last_primed command n =
     last (filter (\<lambda>opt. primes opt \<and> opt_name opt = n) (options_of command))"

text \<open>
  An action command with two options of the name \<open>level\<close>: the first has a default,
  the second is repeatable.
\<close>

definition twin_leaf :: CliCommand where
  "twin_leaf =
     ActionCommand ''twin'' None None
       (Some [(option_named ''level'')\<lparr>opt_default := Some ''1''\<rparr>,
              (option_named ''level'')\<lparr>opt_repeatable := True\<rparr>]) None (Handler ''twin'')"

text \<open>
  An action command whose option \<open>port\<close> has a default that its parser rejects, and a
  parameter with such a default.
\<close>

definition port_option :: CliOption where
  "port_option = (option_named ''port'')\<lparr>opt_default := Some ''http'', opt_parser := Some integer\<rparr>"

definition bad_default :: CliCommand where
  "bad_default = ActionCommand ''serve'' None None (Some [port_option]) None (Handler ''serve'')"

definition level_parameter :: CliParameter where
  "level_parameter =
     (parameter_named ''level'')\<lparr>par_default := Some ''high'', par_parser := Some integer\<rparr>"

definition bad_parameter_default :: CliCommand where
  "bad_parameter_default =
     ActionCommand ''raise'' None None None (Some [level_parameter]) (Handler ''raise'')"

text \<open>An action command with an option and a parameter whose default is the empty string.\<close>

definition mode_option :: CliOption where
  "mode_option = (option_named ''mode'')\<lparr>opt_default := Some [], opt_parser := Some integer\<rparr>"

definition target_parameter :: CliParameter where
  "target_parameter =
     (parameter_named ''target'')\<lparr>par_default := Some [], par_parser := Some integer\<rparr>"

definition empty_default :: CliCommand where
  "empty_default =
     ActionCommand ''copy'' None None (Some [mode_option]) (Some [target_parameter])
       (Handler ''copy'')"

text \<open>The depth of a command tree: the number of commands on its longest branch.\<close>

fun list_max :: "nat list \<Rightarrow> nat" where
  "list_max [] = 0"
| "list_max (x # xs) = max x (list_max xs)"

fun depth :: "CliCommand \<Rightarrow> nat" where
  "depth (SubCommand _ _ _ _ cs) = Suc (list_max (map depth cs))"
| "depth (ActionCommand _ _ _ _ _ _) = 1"

text \<open>The path that an error or a handler call carries.\<close>

fun outcome_path :: "outcome \<Rightarrow> CliCommand list option" where
  "outcome_path (Thrown e) = Some (error_path e)"
| "outcome_path TypeError = None"
| "outcome_path (Called (OptionCall _ p)) = Some p"
| "outcome_path (Called (OptionValueCall _ _ p)) = Some p"
| "outcome_path (Called (CommandCall _ _ _ p)) = Some p"

text \<open>\<^verbatim>\<open>(command as ActionCommand).handler\<close>: the command is an action command.\<close>

fun is_action :: "CliCommand \<Rightarrow> bool" where
  "is_action (ActionCommand _ _ _ _ _ _) = True"
| "is_action (SubCommand _ _ _ _ _) = False"

text \<open>
  A call of the handler of an action command comes after both checks: the path ends in
  that command, no parameter is missing and no required option of the path is missing.
\<close>

definition validated :: "handler \<Rightarrow> jsvalue list \<Rightarrow> OptionValues \<Rightarrow> CliCommand list \<Rightarrow> bool" where
  "validated h vs os p =
     (p \<noteq> [] \<and> is_action (last p) \<and> cmd_handler (last p) = h
      \<and> check_parameters p (cmd_parameters (last p)) vs = None
      \<and> check_options p os p = None)"














text \<open>
  The groups of options of the help text, in the words of the specification: the entries
  of the required options of all commands of the path, the current command first, in one
  group; then, the current command first, one group for each command that has options
  that are not required.
\<close>

definition option_entry :: "CliOption \<Rightarrow> pair" where
  "option_entry opt = (helpOption opt, or_empty (opt_help opt))"

definition required_entries :: "CliCommand \<Rightarrow> pair list" where
  "required_entries c = map option_entry (filter opt_required (options_of c))"

definition other_entries :: "CliCommand \<Rightarrow> pair list" where
  "other_entries c = map option_entry (filter (\<lambda>opt. \<not> opt_required opt) (options_of c))"

definition required_group :: "CliCommand list \<Rightarrow> group list" where
  "required_group path =
     (let entries = concat (map required_entries (rev path))
      in if entries = [] then [] else [(''Required options'', entries)])"

definition command_group :: "CliCommand list \<Rightarrow> nat \<Rightarrow> group list" where
  "command_group path i =
     (if other_entries (path ! i) = [] then []
      else [(group_name path i, other_entries (path ! i))])"

definition command_groups :: "CliCommand list \<Rightarrow> group list" where
  "command_groups path = concat (map (command_group path) (rev [0..<length path]))"

text \<open>A path of two commands that both declare the required option \<open>token\<close>.\<close>

definition token_option :: CliOption where
  "token_option = (option_named ''token'')\<lparr>opt_required := True\<rparr>"

definition twice_leaf :: CliCommand where
  "twice_leaf = ActionCommand ''push'' None None (Some [token_option]) None (Handler ''push'')"

definition twice_root :: CliCommand where
  "twice_root = SubCommand ''repo'' None None (Some [token_option]) [twice_leaf]"

text \<open>
  A command \<open>net\<close> whose option \<open>port\<close> has a default that its parser accepts,
  above the command \<open>serve\<close>; and an action command \<open>lift\<close> whose second parameter
  has a default that its parser rejects.
\<close>

definition bad_root :: CliCommand where
  "bad_root =
     SubCommand ''net'' None None
       (Some [(option_named ''port'')\<lparr>opt_default := Some ''80'', opt_parser := Some integer\<rparr>])
       [bad_default]"

definition lift :: CliCommand where
  "lift =
     ActionCommand ''lift'' None None None (Some [parameter_named ''file'', level_parameter])
       (Handler ''lift'')"

text \<open>
  \<^verbatim>\<open>arg[0] == "-"\<close> (line 253): the argument is read as an option. An argument names
  an option of the name \<open>n\<close> when it is read as an option and the search over the path
  finds an option of that name. The positional arguments are the ones that are not read
  as an option.
\<close>

definition dashed :: "string \<Rightarrow> bool" where
  "dashed arg = (arg \<noteq> [] \<and> hd arg = CHR ''-'')"

definition names_option :: "string \<Rightarrow> CliCommand list \<Rightarrow> string \<Rightarrow> bool" where
  "names_option arg path n =
     (dashed arg \<and> (case match_option arg path of Inr opt \<Rightarrow> opt_name opt = n | Inl _ \<Rightarrow> False))"

definition positional :: "string list \<Rightarrow> nat" where
  "positional args = length (filter (\<lambda>arg. \<not> dashed arg) args)"

section \<open>Unfolding the definitions on concrete inputs\<close>

lemmas char_defs = is_upper_def upper_letters_def toUpperCase_def lower_letters_def
  line_terminator_def toLowerCase_def is_lower_def is_digit_def digit_chars_def

lemmas parser_defs = integer_def integer_match_def parseInt_def negative_def decimal_def
  digit_value_def digits_def enum_parser_def range_parser_def number_def number_match_def
  leading_dot_prefix_def integer_fraction_def number_shape_def

lemmas resolver_defs = step_def match_option_def apply_option_def apply_parameter_def
  prime_options_def prime_option_def options_of_def truthy_def apply_parser_def
  check_parameters_def missing_option_def missing_parameter_def quoted_def option_named_def
  parameter_named_def prime_parameter_def property_def object_prototype_def

lemmas forest_defs = forest_def add_def tree_def animal_def move_def

section \<open>The example scenario\<close>

text \<open>
  C1. On the command tree of the example (the root \<open>forest\<close>, its sub-command \<open>add\<close>
  with the required integer option \<open>sectorId\<close>, symbol \<open>s\<close>, and the action command
  \<open>tree\<close> below it), the arguments \<open>add -s 4 tree -t oak\<close> end in one call of the
  handler of \<open>tree\<close>, with no positional value, the option map holding
  \<open>sectorId = 4\<close>, \<open>type = "oak"\<close> and \<open>count = 1\<close> (and the primed \<open>verbose\<close>,
  \<open>dryRun\<close> and \<open>useFertilizer\<close>), and the path from the root to \<open>tree\<close>. The
  arguments \<open>add tree\<close> call no handler: the parse throws the error whose message is
  \<open>missing required option "--sector-id"\<close>.
\<close>

theorem forest_scenario:
  "parserRun [''add'', ''-s'', ''4'', ''tree'', ''-t'', ''oak''] (forest parseFloat) [] Map.empty =
     Called (CommandCall (Handler ''printArgs'') []
       [''verbose'' \<mapsto> VBool False, ''dryRun'' \<mapsto> VBool False,
        ''sectorId'' \<mapsto> VNum (Finite 4), ''type'' \<mapsto> VStr ''oak'',
        ''count'' \<mapsto> VNum (Finite 1), ''useFertilizer'' \<mapsto> VArr []]
       [forest parseFloat, add parseFloat, tree parseFloat])
   \<and> parserRun [''add'', ''tree''] (forest parseFloat) [] Map.empty =
     Thrown (CliParseError [forest parseFloat, add parseFloat, tree parseFloat]
       (''missing required option '' @ [CHR 0x22] @ ''--sector-id'' @ [CHR 0x22]))"
  by (simp add: forest_defs resolver_defs parser_defs char_defs fun_upd_twist)

section \<open>The number parser\<close>

lemma suffixes_from_self: "s \<in> set (suffixes_from s)"
  by (cases s) auto

lemma suffixes_from_last: "s \<noteq> [] \<Longrightarrow> [last s] \<in> set (suffixes_from s)"
  by (induction s) (auto simp: suffixes_from_self)

text \<open>A string of the shape of the specification is accepted.\<close>

lemma number_shape_match: "number_shape s \<Longrightarrow> number_match s"
  unfolding number_shape_def number_match_def leading_dot_prefix_def
  by (auto simp: Let_def digits_def list_ex_iff suffixes_from_self split: list.splits)

lemma number_shape_accepted: "number_shape s \<Longrightarrow> number parseFloat s = VNum (parseFloat s)"
  by (simp add: number_def number_shape_match)

text \<open>
  So is every string that ends in a digit: its last character alone matches the second
  alternative of the expression.
\<close>

lemma number_match_last_digit:
  assumes "s \<noteq> []" and "is_digit (last s)"
  shows "number_match s"
proof -
  have "integer_fraction [last s]"
    using assms(2) by (auto simp: integer_fraction_def Let_def is_digit_def digit_chars_def)
  then show ?thesis
    using suffixes_from_last[OF assms(1)] by (auto simp: number_match_def list_ex_iff)
qed

lemma digits_last: "digits f \<Longrightarrow> f \<noteq> [] \<and> is_digit (last f)"
  by (auto simp: digits_def list_all_iff)

lemma strip_sign_last: "strip_sign t \<noteq> [] \<Longrightarrow> t \<noteq> [] \<and> last t = last (strip_sign t)"
  by (cases t) (auto split: if_splits)

lemma integer_fraction_last: "integer_fraction t \<Longrightarrow> t \<noteq> [] \<and> is_digit (last t)"
proof -
  assume a: "integer_fraction t"
  let ?u = "strip_sign t"
  have u: "?u = takeWhile is_digit ?u @ dropWhile is_digit ?u" by simp
  have ne: "takeWhile is_digit ?u \<noteq> []" using a by (simp add: integer_fraction_def Let_def)
  have "is_digit (last ?u)"
  proof (cases "dropWhile is_digit ?u")
    case Nil
    then have "?u = takeWhile is_digit ?u"
      by (metis append_Nil2 takeWhile_dropWhile_id)
    moreover have "is_digit (last (takeWhile is_digit ?u))"
      using ne by (metis last_in_set set_takeWhileD)
    ultimately show ?thesis by simp
  next
    case (Cons c f)
    then have "digits f" using a by (simp add: integer_fraction_def Let_def)
    then have "f \<noteq> [] \<and> is_digit (last f)" by (rule digits_last)
    moreover have "last ?u = last f"
      using u Cons calculation by (metis last_ConsR last_appendR list.distinct(1))
    ultimately show ?thesis by simp
  qed
  moreover have "?u \<noteq> []" using ne by auto
  ultimately show ?thesis using strip_sign_last[of t] by simp
qed

lemma suffixes_from_last_eq: "t \<in> set (suffixes_from s) \<Longrightarrow> t \<noteq> [] \<Longrightarrow> s \<noteq> [] \<and> last t = last s"
  by (induction s) (auto split: if_splits)

text \<open>What the expression accepts: a leading-dot prefix, or a digit at the end.\<close>

lemma number_match_iff:
  "number_match s = (leading_dot_prefix s \<or> (s \<noteq> [] \<and> is_digit (last s)))"
proof
  assume "number_match s"
  then show "leading_dot_prefix s \<or> (s \<noteq> [] \<and> is_digit (last s))"
    unfolding number_match_def list_ex_iff
    using integer_fraction_last suffixes_from_last_eq by metis
next
  assume "leading_dot_prefix s \<or> (s \<noteq> [] \<and> is_digit (last s))"
  then show "number_match s"
    using number_match_last_digit by (auto simp: number_match_def)
qed

text \<open>
  C2. The parser \<open>number\<close> does not reject every string that is not an optional sign
  followed by a leading-dot decimal or by an integer with an optional fractional part:
  \<open>x5\<close> and \<open>.5x\<close> are not of that shape, and on both the parser returns what
  \<^verbatim>\<open>parseFloat\<close> reads off the string, not the rejecting value.
\<close>

theorem number_accepts_malformed:
  "number parseFloat ''x5'' = VNum (parseFloat ''x5'') \<and> \<not> number_shape ''x5''
   \<and> number parseFloat ''.5x'' = VNum (parseFloat ''.5x'') \<and> \<not> number_shape ''.5x''"
  by (simp add: parser_defs char_defs)

section \<open>The name codec\<close>

lemma lower_letters_upper:
  "\<forall>d \<in> set lower_letters.
     is_upper (toUpperCase d) \<and> toLowerCase (toUpperCase d) = d \<and> \<not> line_terminator d"
  by code_simp

lemma lower_upper_roundtrip:
  "is_lower d \<Longrightarrow>
   is_upper (toUpperCase d) \<and> toLowerCase (toUpperCase d) = d \<and> \<not> line_terminator d"
  using lower_letters_upper unfolding is_lower_def by blast

lemma hyphens_before_letters_tl:
  "hyphens_before_letters (d # cs) \<Longrightarrow> hyphens_before_letters cs"
  by (cases cs) auto

lemma lower_letters_not_hyphen: "\<forall>d \<in> set lower_letters. d \<noteq> CHR ''-''"
  by code_simp

lemma hyphens_before_letters_no_consecutive:
  "hyphens_before_letters x \<Longrightarrow> no_consecutive_hyphens x"
  using lower_letters_not_hyphen
  by (induction x rule: no_consecutive_hyphens.induct) (auto simp: is_lower_def)

text \<open>
  C6, as the claim states it. The token \<open>a-1\<close> has no upper-case letter and no two
  hyphens in a row; \<open>toCamel\<close> removes its hyphen and leaves the digit as it is, so
  \<open>fromCamel\<close> has no upper-case letter to turn back into a hyphen.
\<close>

theorem roundtrip_counterexample:
  "lowercase_token ''a-1'' \<and> no_consecutive_hyphens ''a-1''
   \<and> fromCamel (toCamel ''a-1'') = ''a1''"
  by code_simp

text \<open>
  C6, amended. For every token without upper-case letters in which every hyphen is the
  last character or stands before a lower-case letter \<open>a\<close> to \<open>z\<close> (so that no two
  hyphens are in a row and no hyphen stands before a digit),
  \<open>fromCamel (toCamel x) = x\<close>.
\<close>

theorem roundtrip_hyphens_before_letters:
  "lowercase_token x \<Longrightarrow> hyphens_before_letters x \<Longrightarrow> fromCamel (toCamel x) = x"
  unfolding lowercase_token_def
proof (induction x rule: toCamel.induct)
  case (1 c d cs)
  show ?case
  proof (cases "c = CHR ''-''")
    case True
    with 1(4) have low: "is_lower d" by simp
    have "hyphens_before_letters cs"
      using 1(4) by (auto dest: hyphens_before_letters_tl)
    then have "fromCamel (toCamel cs) = cs"
      using 1(1) 1(3) True lower_upper_roundtrip[OF low] by simp
    then show ?thesis
      using True lower_upper_roundtrip[OF low] by simp
  next
    case False
    then show ?thesis using 1 by simp
  qed
qed auto

text \<open>The token \<open>sector-id\<close> is such a token.\<close>

theorem roundtrip_witness:
  "lowercase_token ''sector-id'' \<and> hyphens_before_letters ''sector-id''
   \<and> fromCamel (toCamel ''sector-id'') = ''sector-id''"
proof -
  have h1: "lowercase_token ''sector-id''"
    by code_simp
  have h2: "hyphens_before_letters ''sector-id''"
    by code_simp
  show ?thesis
    using h1 h2 roundtrip_hyphens_before_letters[OF h1 h2] by simp
qed

section \<open>Priming of the option map\<close>

lemma prime_option_other: "opt_name opt \<noteq> n \<Longrightarrow> prime_option options opt n = options n"
  by (simp add: prime_option_def)

lemma prime_option_skip: "\<not> primes opt \<Longrightarrow> prime_option options opt = options"
  by (auto simp: prime_option_def primes_def)

lemma prime_option_same:
  "primes opt \<Longrightarrow>
   prime_option options opt (opt_name opt) = prime_option Map.empty opt (opt_name opt)"
  by (auto simp: prime_option_def primes_def)

lemma foldl_prime_option:
  "foldl prime_option options opts n =
     (if n \<in> set (map opt_name (filter primes opts)) then foldl prime_option Map.empty opts n
      else options n)"
proof (induction opts arbitrary: options)
  case Nil
  then show ?case by simp
next
  case (Cons opt opts)
  have a: "foldl prime_option (prime_option options opt) opts n =
     (if n \<in> set (map opt_name (filter primes opts)) then foldl prime_option Map.empty opts n
      else prime_option options opt n)"
    by (rule Cons.IH)
  have b: "foldl prime_option (prime_option Map.empty opt) opts n =
     (if n \<in> set (map opt_name (filter primes opts)) then foldl prime_option Map.empty opts n
      else prime_option Map.empty opt n)"
    by (rule Cons.IH)
  show ?case
  proof (cases "primes opt \<and> opt_name opt = n")
    case True
    then show ?thesis using a b prime_option_same[of opt options] by auto
  next
    case False
    then have "prime_option options opt n = options n"
      using prime_option_other[of opt n options] prime_option_skip[of opt options] by auto
    then show ?thesis using a b False by auto
  qed
qed

text \<open>
  C3, as the claim states it. The option map holds \<open>count = "5"\<close>, set from the tokens
  \<open>--count 5\<close> for the option of \<open>root\<close>. Entering \<open>sub\<close> replaces the entry by the
  default of the option \<open>count\<close> of \<open>sub\<close>, and the handler is called with
  \<open>count = "1"\<close>.
\<close>

theorem priming_counterexample:
  "[''count'' \<mapsto> VStr ''5''] ''count'' = Some (VStr ''5'')
   \<and> prime_options shadow_leaf [''count'' \<mapsto> VStr ''5''] ''count'' = Some (VStr ''1'')
   \<and> parserRun [''--count'', ''5'', ''sub''] shadow_root [] Map.empty =
       Called (CommandCall (Handler ''sub'') []
         [''all'' \<mapsto> VBool False, ''count'' \<mapsto> VStr ''1'']
         [shadow_root, shadow_leaf])"
  by (simp add: shadow_root_def shadow_leaf_def resolver_defs char_defs)

lemma prime_option_value:
  "prime_option options opt n =
     (if primes opt \<and> opt_name opt = n then Some (priming_value opt) else options n)"
  by (auto simp: prime_option_def primes_def priming_value_def apply_parser_def truthy_def
      split: option.splits)

lemma foldl_prime_option_last:
  "foldl prime_option options opts n =
     (if filter (\<lambda>opt. primes opt \<and> opt_name opt = n) opts = [] then options n
      else Some (priming_value (last (filter (\<lambda>opt. primes opt \<and> opt_name opt = n) opts))))"
proof (induction opts rule: rev_induct)
  case Nil
  then show ?case by simp
next
  case (snoc x xs)
  let ?P = "\<lambda>opt. primes opt \<and> opt_name opt = n"
  have step: "foldl prime_option options (xs @ [x]) n =
      (if ?P x then Some (priming_value x) else foldl prime_option options xs n)"
    using prime_option_value[of "foldl prime_option options xs" x n] by simp
  show ?case
  proof (cases "?P x")
    case True
    then have "filter ?P (xs @ [x]) = filter ?P xs @ [x]" by simp
    then show ?thesis using True step by simp
  next
    case False
    then have "filter ?P (xs @ [x]) = filter ?P xs" by simp
    then show ?thesis using False step snoc.IH by presburger
  qed
qed

lemma last_primed_member:
  assumes "n \<in> primed_names command"
  shows "filter (\<lambda>opt. primes opt \<and> opt_name opt = n) (options_of command) \<noteq> []"
    and "last_primed command n \<in> set (options_of command)"
    and "primes (last_primed command n)"
    and "opt_name (last_primed command n) = n"
proof -
  let ?xs = "filter (\<lambda>opt. primes opt \<and> opt_name opt = n) (options_of command)"
  show ne: "?xs \<noteq> []"
    using assms by (auto simp: primed_names_def filter_empty_conv)
  then have "last ?xs \<in> set ?xs"
    by (rule last_in_set)
  then show "last_primed command n \<in> set (options_of command)"
    and "primes (last_primed command n)"
    and "opt_name (last_primed command n) = n"
    by (simp_all add: last_primed_def)
qed

text \<open>
  C3, amended. Entering a command assigns the entry of every option of that command that
  has a non-empty default, is repeatable, or is a boolean without a handler, whether or
  not an entry of that name is there already. For a name \<open>n\<close> of such an option (other
  than \<^verbatim>\<open>__proto__\<close>), the entry after priming is the priming value of the last such
  option of the command, whatever the map held before: the parser applied to the default,
  the default itself, the empty collection, or \<open>False\<close>. The entry of every other name
  is what it was.
\<close>

theorem priming_overwrites:
  "(n \<in> primed_names command \<and> own_property_name n \<longrightarrow>
      last_primed command n \<in> set (options_of command)
      \<and> primes (last_primed command n)
      \<and> opt_name (last_primed command n) = n
      \<and> prime_options command options n = Some (priming_value (last_primed command n)))
   \<and> (n \<notin> primed_names command \<longrightarrow> prime_options command options n = options n)"
proof -
  let ?xs = "filter (\<lambda>opt. primes opt \<and> opt_name opt = n) (options_of command)"
  have a: "n \<in> primed_names command \<Longrightarrow>
           prime_options command options n = Some (priming_value (last_primed command n))"
    using last_primed_member(1)[of n command]
      foldl_prime_option_last[of options "options_of command" n]
    by (simp add: prime_options_def last_primed_def)
  have "n \<notin> primed_names command \<Longrightarrow> ?xs = []"
    by (auto simp: primed_names_def filter_empty_conv)
  then have b: "n \<notin> primed_names command \<Longrightarrow> prime_options command options n = options n"
    using foldl_prime_option_last[of options "options_of command" n]
    by (simp add: prime_options_def)
  show ?thesis
    using a b last_primed_member(2,3,4)[of n command] by blast
qed

text \<open>
  On entering \<open>sub\<close> with \<open>count\<close> and \<open>all\<close> set: \<open>count\<close> is primed by
  \<open>sub\<close> and its entry \<open>5\<close> is replaced by the default \<open>1\<close>; \<open>all\<close> is not
  primed and keeps its value. On entering \<open>twin\<close> with \<open>level\<close> set, the entry is
  replaced by the empty collection of the second option \<open>level\<close>.
\<close>

theorem priming_overwrites_witness:
  "''count'' \<in> primed_names shadow_leaf \<and> own_property_name ''count''
   \<and> last_primed shadow_leaf ''count'' = (option_named ''count'')\<lparr>opt_default := Some ''1''\<rparr>
   \<and> priming_value (last_primed shadow_leaf ''count'') = VStr ''1''
   \<and> prime_options shadow_leaf [''count'' \<mapsto> VStr ''5'', ''all'' \<mapsto> VBool True] ''count''
       = Some (VStr ''1'')
   \<and> ''all'' \<notin> primed_names shadow_leaf
   \<and> prime_options shadow_leaf [''count'' \<mapsto> VStr ''5'', ''all'' \<mapsto> VBool True] ''all''
       = Some (VBool True)
   \<and> ''level'' \<in> primed_names twin_leaf \<and> own_property_name ''level''
   \<and> last_primed twin_leaf ''level'' = (option_named ''level'')\<lparr>opt_repeatable := True\<rparr>
   \<and> priming_value (last_primed twin_leaf ''level'') = VArr []
   \<and> prime_options twin_leaf [''level'' \<mapsto> VStr ''7''] ''level'' = Some (VArr [])"
proof -
  have h1: "''count'' \<in> primed_names shadow_leaf \<and> own_property_name ''count''
            \<and> ''level'' \<in> primed_names twin_leaf \<and> own_property_name ''level''"
    by (simp add: primed_names_def primes_def shadow_leaf_def twin_leaf_def options_of_def
        option_named_def truthy_def own_property_name_def)
  have h2: "''all'' \<notin> primed_names shadow_leaf"
    by (simp add: primed_names_def primes_def shadow_leaf_def options_of_def option_named_def
        truthy_def)
  have h3: "last_primed shadow_leaf ''count'' = (option_named ''count'')\<lparr>opt_default := Some ''1''\<rparr>
            \<and> last_primed twin_leaf ''level'' = (option_named ''level'')\<lparr>opt_repeatable := True\<rparr>"
    by (simp add: last_primed_def primes_def shadow_leaf_def twin_leaf_def options_of_def
        option_named_def truthy_def)
  have h4: "priming_value ((option_named ''count'')\<lparr>opt_default := Some ''1''\<rparr>) = VStr ''1''
            \<and> priming_value ((option_named ''level'')\<lparr>opt_repeatable := True\<rparr>) = VArr []"
    by (simp add: priming_value_def option_named_def)
  show ?thesis
    using h1 h2 h3 h4
      priming_overwrites[of "''count''" shadow_leaf
        "[''count'' \<mapsto> VStr ''5'', ''all'' \<mapsto> VBool True]"]
      priming_overwrites[of "''all''" shadow_leaf
        "[''count'' \<mapsto> VStr ''5'', ''all'' \<mapsto> VBool True]"]
      priming_overwrites[of "''level''" twin_leaf "[''level'' \<mapsto> VStr ''7'']"]
    by simp
qed

section \<open>The empty default\<close>

lemma indexOfNull_member:
  "VNull \<in> set vs \<Longrightarrow> \<exists>i < length vs. indexOfNull vs = Some i"
  by (induction vs) auto

lemma indexOfNull_none: "(indexOfNull vs = None) = (VNull \<notin> set vs)"
  by (induction vs) auto

lemma prime_option_empty_default:
  "opt_default opt = Some [] \<Longrightarrow>
   prime_option options opt =
     (if opt_repeatable opt then options(opt_name opt \<mapsto> VArr [])
      else if opt_boolean opt \<and> opt_handler opt = None then options(opt_name opt \<mapsto> VBool False)
      else options)"
  by (simp add: prime_option_def truthy_def)

lemma prime_option_empty_default_absent:
  "opt_default opt = Some [] \<Longrightarrow>
   prime_option options opt = prime_option options (opt\<lparr>opt_default := None, opt_parser := p\<rparr>)"
  by (simp add: prime_option_def truthy_def)

lemma prime_parameter_empty_default:
  "par_default par = Some [] \<Longrightarrow>
   prime_parameter par = prime_parameter (par\<lparr>par_default := None, par_parser := q\<rparr>)"
  by (simp add: prime_parameter_def truthy_def)

lemma prime_parameter_empty_default_missing:
  "par_default par = Some [] \<Longrightarrow> \<not> par_repeatable par \<Longrightarrow> \<not> par_optional par \<Longrightarrow>
   prime_parameter par = VNull"
  by (simp add: prime_parameter_def truthy_def)

lemma empty_default_parse_fails:
  assumes "par \<in> set ps" "par_default par = Some []" "\<not> par_repeatable par" "\<not> par_optional par"
  shows "\<exists>missing \<in> set ps.
           parserRun [] (ActionCommand n h e os (Some ps) f) path options =
             missing_parameter (path @ [ActionCommand n h e os (Some ps) f]) missing"
proof -
  have "VNull \<in> set (map prime_parameter ps)"
    using assms prime_parameter_empty_default_missing[of par] by force
  then obtain i where i: "i < length ps" "indexOfNull (map prime_parameter ps) = Some i"
    using indexOfNull_member by fastforce
  have "ps \<noteq> []" using assms(1) by auto
  then have "parserRun [] (ActionCommand n h e os (Some ps) f) path options =
             missing_parameter (path @ [ActionCommand n h e os (Some ps) f]) (ps ! i)"
    using i by (simp add: check_parameters_def)
  then show ?thesis using i(1) by (metis nth_mem)
qed

lemma missing_marker_fails:
  assumes "VNull \<in> set params" "ps \<noteq> []"
  shows "\<exists>i < length params. indexOfNull params = Some i
           \<and> loop [] (ActionCommand n h e os (Some ps) f) path options params index =
               missing_parameter path (ps ! i)"
proof -
  obtain i where i: "i < length params" "indexOfNull params = Some i"
    using indexOfNull_member[OF assms(1)] by blast
  then have "loop [] (ActionCommand n h e os (Some ps) f) path options params index =
             missing_parameter path (ps ! i)"
    using assms(2) by (simp add: check_parameters_def)
  then show ?thesis using i by blast
qed

text \<open>
  C10. An option whose default is the empty string is primed as the same option without
  default, whatever its parser: it gets the empty collection when it is repeatable,
  \<open>False\<close> when it is a boolean without handler, and no entry otherwise. A parameter
  whose default is the empty string is primed as the same parameter without default,
  whatever its parser, and when it is neither repeatable nor optional its slot holds the
  marker of a missing parameter. As long as a slot holds that marker at the end of the
  arguments, the parse fails with the error of a missing parameter (naming the first
  slot that holds it); so does the parse of no arguments of an action command with such
  a parameter.
\<close>

theorem empty_default_is_no_default:
  "(opt_default opt = Some [] \<longrightarrow>
      prime_option options opt = prime_option options (opt\<lparr>opt_default := None, opt_parser := p\<rparr>)
      \<and> prime_option options opt =
          (if opt_repeatable opt then options(opt_name opt \<mapsto> VArr [])
           else if opt_boolean opt \<and> opt_handler opt = None
                then options(opt_name opt \<mapsto> VBool False)
           else options))
   \<and> (par_default par = Some [] \<longrightarrow>
      prime_parameter par = prime_parameter (par\<lparr>par_default := None, par_parser := q\<rparr>))
   \<and> (par_default par = Some [] \<and> \<not> par_repeatable par \<and> \<not> par_optional par \<longrightarrow>
      prime_parameter par = VNull)
   \<and> (par \<in> set ps \<and> par_default par = Some [] \<and> \<not> par_repeatable par \<and> \<not> par_optional par \<longrightarrow>
      (\<exists>missing \<in> set ps.
         parserRun [] (ActionCommand n h e os (Some ps) f) path options =
           missing_parameter (path @ [ActionCommand n h e os (Some ps) f]) missing))
   \<and> (VNull \<in> set params \<and> ps \<noteq> [] \<longrightarrow>
      (\<exists>i < length params. indexOfNull params = Some i
         \<and> loop [] (ActionCommand n h e os (Some ps) f) path options params index =
             missing_parameter path (ps ! i)))"
  using prime_option_empty_default[of opt options]
    prime_option_empty_default_absent[of opt options p]
    prime_parameter_empty_default[of par q]
    prime_parameter_empty_default_missing[of par]
    empty_default_parse_fails[of par ps n h e os f path options]
    missing_marker_fails[of params ps n h e os f path options index]
  by blast

text \<open>The option \<open>mode\<close> and the parameter \<open>target\<close> of the command \<open>copy\<close>.\<close>

theorem empty_default_witness:
  "opt_default mode_option = Some []
   \<and> prime_option Map.empty mode_option = Map.empty
   \<and> par_default target_parameter = Some []
   \<and> \<not> par_repeatable target_parameter \<and> \<not> par_optional target_parameter
   \<and> prime_parameter target_parameter = VNull
   \<and> parserRun [] empty_default [] Map.empty =
       missing_parameter [empty_default] target_parameter
   \<and> VNull \<in> set [VNull] \<and> indexOfNull [VNull] = Some 0
   \<and> loop [] empty_default [empty_default] Map.empty [VNull] 0 =
       missing_parameter [empty_default] target_parameter"
proof -
  have h1: "opt_default mode_option = Some [] \<and> \<not> opt_repeatable mode_option
            \<and> \<not> opt_boolean mode_option"
    by (simp add: mode_option_def option_named_def)
  have h2: "par_default target_parameter = Some [] \<and> \<not> par_repeatable target_parameter
            \<and> \<not> par_optional target_parameter"
    by (simp add: target_parameter_def parameter_named_def)
  show ?thesis
    using h1 h2
      empty_default_is_no_default[where opt = mode_option and options = Map.empty
        and par = target_parameter and ps = "[target_parameter]" and n = "''copy''"
        and h = None and e = None and os = "Some [mode_option]" and f = "Handler ''copy''"
        and path = "[]" and params = "[]" and index = 0 and p = None and q = None]
      empty_default_is_no_default[where opt = mode_option and options = Map.empty
        and par = target_parameter and ps = "[target_parameter]" and n = "''copy''"
        and h = None and e = None and os = "Some [mode_option]" and f = "Handler ''copy''"
        and path = "[empty_default]" and params = "[VNull]" and index = 0 and p = None
        and q = None]
    by (simp del: parserRun.simps loop.simps add: empty_default_def)
qed

section \<open>Invariants of the parse\<close>

lemma list_max_ge: "x \<in> set xs \<Longrightarrow> x \<le> list_max xs"
  by (induction xs) auto

lemma depth_child: "next \<in> set cs \<Longrightarrow> depth next < depth (SubCommand n h e os cs)"
  using list_max_ge[of "depth next" "map depth cs"] by auto

lemma depth_positive: "0 < depth command"
  by (cases command) auto

lemma step_Stop:
  "step arg rest command path options params index = Stop r \<Longrightarrow>
   r = TypeError \<or> (\<exists>m. m \<noteq> [] \<and> r = Thrown (CliParseError path m))
   \<or> (\<exists>h. r = Called (OptionCall h path)) \<or> (\<exists>h v. r = Called (OptionValueCall h v path))"
  by (auto simp: step_def match_option_def apply_option_def apply_parameter_def Let_def quoted_def
      split: if_splits sum.splits option.splits list.splits CliCommand.splits jsvalue.splits)

lemma step_Descend:
  "step arg rest command path options params index = Descend rest' next \<Longrightarrow>
   rest' = rest \<and> (\<exists>n h e os cs. command = SubCommand n h e os cs \<and> next \<in> set cs)"
  by (auto simp: step_def apply_option_def apply_parameter_def Let_def find_Some_iff
      split: if_splits sum.splits option.splits list.splits CliCommand.splits jsvalue.splits)

lemma step_Continue:
  "step arg rest command path options params index = Continue rest' options' params' index' \<Longrightarrow>
   length rest' \<le> length rest"
  by (auto simp: step_def apply_option_def apply_parameter_def Let_def
      split: if_splits sum.splits option.splits list.splits CliCommand.splits jsvalue.splits)

lemma check_parameters_Some:
  "check_parameters path ps params = Some r \<Longrightarrow>
   r = TypeError \<or> (\<exists>m. m \<noteq> [] \<and> r = Thrown (CliParseError path m))"
  by (auto simp: check_parameters_def missing_parameter_def Let_def
      split: option.splits if_splits bool.splits)

lemma check_required_Some:
  "check_required path options opts = Some r \<Longrightarrow>
   r = TypeError \<or> (\<exists>m. m \<noteq> [] \<and> r = Thrown (CliParseError path m))"
  by (induction opts) (auto simp: missing_option_def split: option.splits if_splits bool.splits)

lemma check_options_Some:
  "check_options path options cs = Some r \<Longrightarrow>
   r = TypeError \<or> (\<exists>m. m \<noteq> [] \<and> r = Thrown (CliParseError path m))"
  by (induction cs) (auto dest: check_required_Some split: option.splits)

lemma finish_cases:
  "finish command path options params = r \<Longrightarrow>
   r = TypeError
   \<or> (\<exists>m. m \<noteq> [] \<and> r = Thrown (CliParseError path m) \<and> is_action command)
   \<or> (r = Thrown (CliParseError path []) \<and> \<not> is_action command)
   \<or> (is_action command \<and> r = Called (CommandCall (cmd_handler command) params options path)
       \<and> check_parameters path (cmd_parameters command) params = None
       \<and> check_options path options path = None)"
  by (cases command)
     (auto dest: check_parameters_Some check_options_Some split: option.splits)


lemma path_invariant:
  shows "outcome_path (parserRun args command path options) = Some p \<longrightarrow>
           (\<exists>chain. p = path @ command # chain \<and> length chain < depth command
                    \<and> length chain \<le> length args)"
    and "outcome_path (loop args command path options params index) = Some p \<longrightarrow>
           (\<exists>chain. p = path @ chain \<and> length chain < depth command
                    \<and> length chain \<le> length args)"
proof (induction "args" "command" "path" "options" and "args" "command" "path" "options" "params" "index"
       rule: parserRun_loop.induct)
  case (1 args command path options)
  then show ?case by auto
next
  case (2 command path options params index)
  show ?case
    using finish_cases[OF refl, of command path options params] depth_positive[of command]
    by auto
next
  case (3 arg rest command path options params index)
  show ?case
  proof (cases "step arg rest command path options params index")
    case (Stop r)
    then show ?thesis
      using step_Stop[OF Stop] depth_positive[of command] by auto
  next
    case (Descend rest' child)
    from step_Descend[OF Descend] obtain n h e os cs where
      d: "rest' = rest" "command = SubCommand n h e os cs" "child \<in> set cs"
      by blast
    have lt: "depth child < depth command"
      using d depth_child by simp
    show ?thesis
    proof
      assume a: "outcome_path (loop (arg # rest) command path options params index) = Some p"
      then have "outcome_path (parserRun rest' child path options) = Some p"
        using Descend by simp
      then obtain chain where
        c: "p = path @ child # chain" "length chain < depth child" "length chain \<le> length rest'"
        using 3(1)[OF Descend] by blast
      have "p = path @ (child # chain) \<and> length (child # chain) < depth command
            \<and> length (child # chain) \<le> length (arg # rest)"
        using c d(1) lt by simp
      then show "\<exists>chain. p = path @ chain \<and> length chain < depth command
                   \<and> length chain \<le> length (arg # rest)"
        by blast
    qed
  next
    case (Continue rest' options' params' index')
    have "length rest' \<le> length rest"
      using step_Continue[OF Continue] .
    then show ?thesis
      using 3(2)[OF Continue] Continue by auto
  qed
qed

lemma parse_induct:
  assumes fin: "\<And>command path options params. \<Phi> command path (finish command path options params)"
    and stop: "\<And>arg rest command path options params index r.
                 step arg rest command path options params index = Stop r \<Longrightarrow> \<Phi> command path r"
    and desc: "\<And>command child path r. \<Phi> child (path @ [child]) r \<Longrightarrow> \<Phi> command path r"
  shows "\<Phi> command (path @ [command]) (parserRun args command path options)"
    and "\<Phi> command path (loop args command path options params index)"
proof (induction "args" "command" "path" "options" and "args" "command" "path" "options" "params" "index"
       rule: parserRun_loop.induct)
  case (1 args command path options)
  then show ?case by simp
next
  case (2 command path options params index)
  show ?case using fin by simp
next
  case (3 arg rest command path options params index)
  show ?case
  proof (cases "step arg rest command path options params index")
    case (Stop r)
    then show ?thesis using stop[OF Stop] by simp
  next
    case (Descend rest' child)
    then show ?thesis using desc[OF 3(1)[OF Descend]] by simp
  next
    case (Continue rest' options' params' index')
    then show ?thesis using 3(2)[OF Continue] by simp
  qed
qed

lemma command_call_validated:
  "parserRun args command path options = Called (CommandCall h vs os p) \<Longrightarrow> validated h vs os p"
proof -
  let ?\<Phi> = "\<lambda>c pth r. pth \<noteq> [] \<and> last pth = c \<longrightarrow>
                 (\<forall>h vs os p. r = Called (CommandCall h vs os p) \<longrightarrow> validated h vs os p)"
  have "?\<Phi> command (path @ [command]) (parserRun args command path options)"
  proof (rule parse_induct(1)[where \<Phi> = ?\<Phi>])
    fix command path options params
    show "?\<Phi> command path (finish command path options params)"
      using finish_cases[OF refl, of command path options params]
      by (auto simp: validated_def)
  next
    fix arg rest command path options params index r
    assume "step arg rest command path options params index = Stop r"
    then show "?\<Phi> command path r"
      using step_Stop by fastforce
  next
    fix command :: CliCommand and child :: CliCommand and path :: "CliCommand list" and r :: outcome
    assume "?\<Phi> child (path @ [child]) r"
    then show "?\<Phi> command path r" by simp
  qed
  then show "parserRun args command path options = Called (CommandCall h vs os p) \<Longrightarrow> validated h vs os p"
    by simp
qed

lemma empty_message_at_branch:
  "parserRun args command path options = Thrown err \<Longrightarrow> error_message err = [] \<Longrightarrow>
   error_path err \<noteq> [] \<and> \<not> is_action (last (error_path err))"
proof -
  let ?\<Phi> = "\<lambda>c pth r. pth \<noteq> [] \<and> last pth = c \<longrightarrow>
                 (\<forall>err. r = Thrown err \<and> error_message err = [] \<longrightarrow>
                    error_path err \<noteq> [] \<and> \<not> is_action (last (error_path err)))"
  have "?\<Phi> command (path @ [command]) (parserRun args command path options)"
  proof (rule parse_induct(1)[where \<Phi> = ?\<Phi>])
    fix command path options params
    show "?\<Phi> command path (finish command path options params)"
      using finish_cases[OF refl, of command path options params]
      by auto
  next
    fix arg rest command path options params index r
    assume "step arg rest command path options params index = Stop r"
    then show "?\<Phi> command path r"
      using step_Stop by fastforce
  next
    fix command :: CliCommand and child :: CliCommand and path :: "CliCommand list" and r :: outcome
    assume "?\<Phi> child (path @ [child]) r"
    then show "?\<Phi> command path r" by simp
  qed
  then show "parserRun args command path options = Thrown err \<Longrightarrow> error_message err = [] \<Longrightarrow>
   error_path err \<noteq> [] \<and> \<not> is_action (last (error_path err))"
    by simp
qed

section \<open>Handler calls\<close>

















section \<open>Termination\<close>

text \<open>
  C9. \<open>parserRun\<close> and \<open>loop\<close> are total: their termination is proved on the number
  of arguments left. A turn of the loop that continues leaves fewer arguments than it
  found; a descent gets fewer arguments and a command of smaller depth; and the path at
  the end of a parse, which grows by one command with every call of \<open>parserRun\<close>,
  has at most as many commands after the initial ones as the command tree is deep, and
  at most one more than there are arguments.
\<close>

theorem resolver_terminates:
  "(step arg rest command path options params index = Continue rest' options' params' index' \<longrightarrow>
      length rest' < length (arg # rest))
   \<and> (step arg rest command path options params index = Descend rest' child \<longrightarrow>
      length rest' < length (arg # rest) \<and> depth child < depth command)
   \<and> (outcome_path (parserRun args command path options) = Some p \<longrightarrow>
      (\<exists>chain. p = path @ command # chain \<and> length chain < depth command
               \<and> length chain \<le> length args))"
proof -
  have a: "step arg rest command path options params index = Continue rest' options' params' index' \<longrightarrow>
      length rest' < length (arg # rest)"
    using step_Continue[of arg rest command path options params index rest' options' params' index']
    by auto
  have b: "step arg rest command path options params index = Descend rest' child \<longrightarrow>
      length rest' < length (arg # rest) \<and> depth child < depth command"
    using step_Descend[of arg rest command path options params index rest' child] depth_child
    by auto
  show ?thesis
    using a b path_invariant(1)[of args command path options p] by blast
qed

text \<open>A turn that continues, a descent, and the path of a parse, on \<open>root\<close>.\<close>

theorem resolver_terminates_witness:
  "step ''--all'' [''sub''] shadow_root [shadow_root] Map.empty [] 0 =
     Continue [''sub''] [''all'' \<mapsto> VBool True] [] 0
   \<and> length [''sub''] < length [''--all'', ''sub'']
   \<and> step ''sub'' [] shadow_root [shadow_root] Map.empty [] 0 = Descend [] shadow_leaf
   \<and> depth shadow_leaf < depth shadow_root
   \<and> outcome_path (parserRun [''sub''] shadow_root [] Map.empty) = Some [shadow_root, shadow_leaf]
   \<and> length [shadow_leaf] < depth shadow_root"
proof -
  have h1: "step ''--all'' [''sub''] shadow_root [shadow_root] Map.empty [] 0 =
     Continue [''sub''] [''all'' \<mapsto> VBool True] [] 0"
    by (simp add: shadow_root_def shadow_leaf_def resolver_defs char_defs)
  have h2: "step ''sub'' [] shadow_root [shadow_root] Map.empty [] 0 = Descend [] shadow_leaf"
    by (simp add: shadow_root_def shadow_leaf_def resolver_defs char_defs)
  have h3: "outcome_path (parserRun [''sub''] shadow_root [] Map.empty) = Some [shadow_root, shadow_leaf]"
    by (simp add: shadow_root_def shadow_leaf_def resolver_defs char_defs)
  show ?thesis
    using h1 h2 h3
      resolver_terminates[where arg = "''--all''" and rest = "[''sub'']" and command = shadow_root
        and path = "[shadow_root]" and options = Map.empty and params = "[]" and index = 0
        and rest' = "[''sub'']" and options' = "[''all'' \<mapsto> VBool True]" and params' = "[]"
        and index' = 0 and child = shadow_leaf and args = "[''sub'']" and p = "[shadow_root, shadow_leaf]"]
      resolver_terminates[where arg = "''sub''" and rest = "[]" and command = shadow_root
        and path = "[shadow_root]" and options = Map.empty and params = "[]" and index = 0
        and rest' = "[]" and child = shadow_leaf and args = "[''sub'']"
        and p = "[shadow_root, shadow_leaf]"]
      resolver_terminates[where command = shadow_root and path = "[]" and options = Map.empty
        and args = "[''sub'']" and p = "[shadow_root, shadow_leaf]"]
    by (simp del: parserRun.simps)
qed

section \<open>The end of the arguments at a sub-command\<close>

text \<open>
  C5. When the arguments end while the current command is a sub-command, the parse throws
  an error with the empty message and the whole path. The wrapped \<open>run\<close> writes the
  usage text alone for an error with the empty message, and an error line followed by the
  usage text for an error with a message. The empty message comes from the end at a
  sub-command only.
\<close>

theorem incomplete_shows_help_only:
  "loop [] (SubCommand n h e os cs) path options params index = Thrown (CliParseError path [])
   \<and> parserRun [] (SubCommand n h e os cs) path options =
       Thrown (CliParseError (path @ [SubCommand n h e os cs]) [])
   \<and> (parserRun args config [] Map.empty = Thrown err \<and> error_message err = [] \<longrightarrow>
        (\<exists>usage. help_path (error_path err) = Some usage
                \<and> run config args = ([ConsoleInfo usage], Returned)))
   \<and> (parserRun args config [] Map.empty = Thrown err \<and> error_message err \<noteq> [] \<longrightarrow>
        (\<exists>usage. help_path (error_path err) = Some usage
                \<and> run config args =
                    ([ConsoleError (''error: '' @ error_message err @ newline), ConsoleInfo usage],
                     Returned)))
   \<and> (parserRun args command path options = Thrown err \<and> error_message err = [] \<longrightarrow>
        \<not> is_action (last (error_path err)))"
proof -
  have ne: "parserRun args config [] Map.empty = Thrown err \<Longrightarrow> error_path err \<noteq> []"
    using path_invariant(1)[of args config "[]" Map.empty "error_path err"] by auto
  have hp: "\<And>p. p \<noteq> [] \<Longrightarrow> \<exists>usage. help_path p = Some usage"
    by (simp add: help_path_def Let_def)
  have c: "parserRun args config [] Map.empty = Thrown err \<and> error_message err = [] \<longrightarrow>
        (\<exists>usage. help_path (error_path err) = Some usage
                \<and> run config args = ([ConsoleInfo usage], Returned))"
  proof
    assume a: "parserRun args config [] Map.empty = Thrown err \<and> error_message err = []"
    then obtain usage where "help_path (error_path err) = Some usage"
      using hp[OF ne] by blast
    then show "\<exists>usage. help_path (error_path err) = Some usage
                \<and> run config args = ([ConsoleInfo usage], Returned)"
      using a by (simp add: run_def del: parserRun.simps)
  qed
  have d: "parserRun args config [] Map.empty = Thrown err \<and> error_message err \<noteq> [] \<longrightarrow>
        (\<exists>usage. help_path (error_path err) = Some usage
                \<and> run config args =
                    ([ConsoleError (''error: '' @ error_message err @ newline), ConsoleInfo usage],
                     Returned))"
  proof
    assume a: "parserRun args config [] Map.empty = Thrown err \<and> error_message err \<noteq> []"
    then obtain usage where "help_path (error_path err) = Some usage"
      using hp[OF ne] by blast
    then show "\<exists>usage. help_path (error_path err) = Some usage
                \<and> run config args =
                    ([ConsoleError (''error: '' @ error_message err @ newline), ConsoleInfo usage],
                     Returned)"
      using a by (simp add: run_def del: parserRun.simps)
  qed
  show ?thesis
    using c d empty_message_at_branch[of args command path options err] by simp
qed

text \<open>No argument, and an unknown command, on \<open>root\<close>.\<close>

theorem incomplete_shows_help_only_witness:
  "parserRun [] shadow_root [] Map.empty = Thrown (CliParseError [shadow_root] [])
   \<and> run shadow_root [] = ([ConsoleInfo (the (help_path [shadow_root]))], Returned)
   \<and> parserRun [''x''] shadow_root [] Map.empty =
       Thrown (CliParseError [shadow_root] (''unrecognized command '' @ quoted ''x''))
   \<and> run shadow_root [''x''] =
       ([ConsoleError (''error: '' @ ''unrecognized command '' @ quoted ''x'' @ newline),
         ConsoleInfo (the (help_path [shadow_root]))], Returned)"
proof -
  have h1: "parserRun [] shadow_root [] Map.empty = Thrown (CliParseError [shadow_root] [])"
    by (simp add: shadow_root_def)
  have h2: "parserRun [''x''] shadow_root [] Map.empty =
       Thrown (CliParseError [shadow_root] (''unrecognized command '' @ quoted ''x''))"
    by (simp add: shadow_root_def shadow_leaf_def resolver_defs char_defs)
  have h3: "''unrecognized command '' @ quoted ''x'' \<noteq> []"
    by simp
  note t = incomplete_shows_help_only[where n = "[]" and h = None and e = None and os = None
      and cs = "[]" and path = "[]" and options = Map.empty and params = "[]" and index = 0
      and command = shadow_root and config = shadow_root]
  obtain u where u: "help_path [shadow_root] = Some u" "run shadow_root [] = ([ConsoleInfo u], Returned)"
    using h1 t[where args = "[]" and err = "CliParseError [shadow_root] []"]
    by (auto simp del: parserRun.simps)
  obtain v where v: "help_path [shadow_root] = Some v"
    "run shadow_root [''x''] =
       ([ConsoleError (''error: '' @ ''unrecognized command '' @ quoted ''x'' @ newline),
         ConsoleInfo v], Returned)"
    using h2 h3 t[where args = "[''x'']"
        and err = "CliParseError [shadow_root] (''unrecognized command '' @ quoted ''x'')"]
    by (auto simp del: parserRun.simps)
  show ?thesis
    using h1 h2 u v by (simp del: parserRun.simps)
qed

section \<open>The groups of options in the help text\<close>

lemma foldl_scan_option:
  "snd (foldl scan_option (padding, required, pairs) opts) =
     (required @ map option_entry (filter opt_required opts),
      pairs @ map option_entry (filter (\<lambda>opt. \<not> opt_required opt) opts))"
proof (induction opts arbitrary: padding required pairs)
  case Nil
  then show ?case by simp
next
  case (Cons opt opts)
  have "scan_option (padding, required, pairs) opt =
          (max (length (helpOption opt)) padding,
           if opt_required opt then required @ [option_entry opt] else required,
           if opt_required opt then pairs else pairs @ [option_entry opt])"
    by (simp add: scan_option_def Let_def option_entry_def)
  then show ?case
    by (simp add: Cons.IH)
qed

lemma scan_command_groups:
  "snd (scan_command path i (padding, required, groups)) =
     (required @ required_entries (path ! i), groups @ command_group path i)"
proof (cases "cmd_options (path ! i)")
  case None
  then show ?thesis
    by (simp add: scan_command_def required_entries_def command_group_def other_entries_def
        options_of_def)
next
  case (Some opts)
  obtain padding' required' pairs where
    f: "foldl scan_option (padding, required, []) opts = (padding', required', pairs)"
    by (cases "foldl scan_option (padding, required, []) opts") auto
  have "(required', pairs) =
        (required @ map option_entry (filter opt_required opts),
         map option_entry (filter (\<lambda>opt. \<not> opt_required opt) opts))"
    using foldl_scan_option[of padding required "[]" opts] f by simp
  then show ?thesis
    using Some f
    by (simp add: scan_command_def required_entries_def command_group_def other_entries_def
        options_of_def)
qed

lemma scan_path_groups:
  "snd (scan_path path n (padding, required, groups)) =
     (required @ concat (map (\<lambda>i. required_entries (path ! i)) (rev [0..<n])),
      groups @ concat (map (command_group path) (rev [0..<n])))"
proof (induction n arbitrary: padding required groups)
  case 0
  then show ?case by simp
next
  case (Suc n)
  obtain padding' required' groups' where
    s: "scan_command path n (padding, required, groups) = (padding', required', groups')"
    by (cases "scan_command path n (padding, required, groups)") auto
  have "(required', groups') =
        (required @ required_entries (path ! n), groups @ command_group path n)"
    using scan_command_groups[of path n padding required groups] s by simp
  then show ?case
    using s Suc.IH[of padding' required' groups'] by simp
qed

lemma rev_path_nth: "map (\<lambda>i. f (path ! i)) (rev [0..<length path]) = map f (rev path)"
proof -
  have "map (\<lambda>i. f (path ! i)) [0..<length path] = map f (map (\<lambda>i. path ! i) [0..<length path])"
    by (simp add: o_def)
  also have "\<dots> = map f path"
    by (simp only: map_nth)
  finally have "rev (map (\<lambda>i. f (path ! i)) [0..<length path]) = rev (map f path)"
    by (simp only:)
  then show ?thesis
    by (simp only: rev_map)
qed

lemma scan_groups_closed_form:
  "snd (helpOptions_groups path) = required_group path @ command_groups path"
proof -
  obtain padding required groups where
    s: "scan_path path (length path) (0, [], []) = (padding, required, groups)"
    by (cases "scan_path path (length path) (0, [], [])") auto
  have "(required, groups) =
        (concat (map (\<lambda>i. required_entries (path ! i)) (rev [0..<length path])),
         concat (map (command_group path) (rev [0..<length path])))"
    using scan_path_groups[of path "length path" 0 "[]" "[]"] s by simp
  then have "required = concat (map required_entries (rev path))"
    and "groups = command_groups path"
    using rev_path_nth[of required_entries path] by (simp_all add: command_groups_def)
  then show ?thesis
    using s by (simp add: helpOptions_groups_def required_group_def Let_def)
qed

text \<open>
  C8, as the claim states it. Both commands of the path declare the required option
  \<open>token\<close>; the group of required options lists it twice: nothing is deduplicated.
\<close>

theorem help_groups_counterexample:
  "snd (helpOptions_groups [twice_root, twice_leaf]) =
     [(''Required options'', [(''--token <value>'', []), (''--token <value>'', [])])]"
  by code_simp

text \<open>
  C8, amended. The groups that \<open>helpOptions\<close> renders are, in this order: the group
  \<open>Required options\<close> with one entry for every declaration of a required option on the
  path, the declarations of the current command first, then those of each ancestor from
  the innermost to the root, in the order of declaration within a command and with
  nothing removed, left out when there is no such declaration (a required option is
  listed in this group only); then for the current command and for each ancestor from
  the innermost to the root that has options that are not required, a group of these,
  named \<open>Options\<close> for the current command,
  \<open>Global options\<close> for the root and \<open>Inherited options (name)\<close> for another
  ancestor, left out when the command has none.
\<close>

theorem help_options_groups:
  "snd (helpOptions_groups path) = required_group path @ command_groups path
   \<and> helpOptions path =
       concat (map (render_group (fst (helpOptions_groups path)))
         (required_group path @ command_groups path))"
  using scan_groups_closed_form[of path]
  by (cases "helpOptions_groups path") (simp add: helpOptions_def)

section \<open>Defaults that the parser rejects\<close>

lemma check_required_none:
  "\<forall>opt \<in> set opts. \<not> opt_required opt \<Longrightarrow> check_required path options opts = None"
  by (induction opts) auto

lemma foldl_prime_option_distinct:
  "opt \<in> set opts \<Longrightarrow> distinct (map opt_name opts) \<Longrightarrow> primes opt \<Longrightarrow>
   foldl prime_option options opts (opt_name opt) = prime_option Map.empty opt (opt_name opt)"
proof (induction opts arbitrary: options)
  case Nil
  then show ?case by simp
next
  case (Cons x xs)
  show ?case
  proof (cases "x = opt")
    case True
    then have "opt_name opt \<notin> set (map opt_name (filter primes xs))"
      using Cons.prems(2) by auto
    then have "foldl prime_option (prime_option options opt) xs (opt_name opt)
               = prime_option options opt (opt_name opt)"
      using foldl_prime_option[of "prime_option options opt" xs "opt_name opt"] by simp
    then show ?thesis
      using True prime_option_same[OF Cons.prems(3), of options] by simp
  next
    case False
    then show ?thesis using Cons by auto
  qed
qed

lemma prime_option_default:
  "truthy (opt_default opt) \<Longrightarrow> opt_parser opt = Some p \<Longrightarrow>
   prime_option options opt = options(opt_name opt \<mapsto> p (the (opt_default opt)))"
  by (simp add: prime_option_def apply_parser_def)

lemma prime_parameter_default:
  "truthy (par_default par) \<Longrightarrow> par_parser par = Some q \<Longrightarrow>
   prime_parameter par = q (the (par_default par))"
  by (simp add: prime_parameter_def apply_parser_def)

lemma prime_options_default:
  assumes "opt \<in> set (options_of command)" "distinct (map opt_name (options_of command))"
    "truthy (opt_default opt)" "opt_parser opt = Some p"
  shows "opt_name opt \<in> primed_names command"
    and "prime_options command options (opt_name opt) = Some (p (the (opt_default opt)))"
proof -
  have pr: "primes opt" using assms(3) by (simp add: primes_def)
  then show "opt_name opt \<in> primed_names command"
    using assms(1) by (auto simp: primed_names_def)
  show "prime_options command options (opt_name opt) = Some (p (the (opt_default opt)))"
    using foldl_prime_option_distinct[OF assms(1) assms(2) pr, of options]
      prime_option_default[OF assms(3) assms(4), of Map.empty]
    by (simp add: prime_options_def)
qed

text \<open>
  With no argument, an action command without parameters and without required options
  calls its handler with the primed option map, whatever the parsers made of the
  defaults.
\<close>

lemma rejected_option_default_reaches_handler:
  assumes "opt \<in> set opts" "distinct (map opt_name opts)" "\<forall>x \<in> set opts. \<not> opt_required x"
    "truthy (opt_default opt)" "opt_parser opt = Some p"
  shows "\<exists>os. parserRun [] (ActionCommand n h e (Some opts) None f) [] Map.empty =
            Called (CommandCall f [] os [ActionCommand n h e (Some opts) None f])
          \<and> os (opt_name opt) = Some (p (the (opt_default opt)))"
proof -
  let ?c = "ActionCommand n h e (Some opts) None f"
  have v: "prime_options ?c Map.empty (opt_name opt) = Some (p (the (opt_default opt)))"
    using prime_options_default(2)[of opt ?c p Map.empty] assms
    by (simp add: options_of_def)
  have "check_options [?c] (prime_options ?c Map.empty) [?c] = None"
    using check_required_none[OF assms(3)] by (simp add: options_of_def)
  then have "parserRun [] ?c [] Map.empty =
             Called (CommandCall f [] (prime_options ?c Map.empty) [?c])"
    by (simp add: check_parameters_def)
  with v show ?thesis by blast
qed

text \<open>One turn of the loop changes the entry of the option that the argument names only.\<close>

lemma step_options_frame:
  "step arg rest command path options params index = Continue rest' options' params' index' \<Longrightarrow>
   \<not> names_option arg path n \<Longrightarrow> options' n = options n"
  by (auto simp: step_def apply_option_def apply_parameter_def names_option_def dashed_def Let_def
      split: if_splits sum.splits option.splits list.splits CliCommand.splits jsvalue.splits)

lemma step_Continue_rest:
  "step arg rest command path options params index = Continue rest' options' params' index' \<Longrightarrow>
   set rest' \<subseteq> set rest"
  by (auto simp: step_def apply_option_def apply_parameter_def Let_def
      split: if_splits sum.splits option.splits list.splits CliCommand.splits jsvalue.splits)

text \<open>
  The entry that the handler of a command gets for a name that the command primes is the
  one of the priming of that command, unless an argument names an option of that name.
\<close>

lemma leaf_entry_primed:
  shows "parserRun args command path options = Called (CommandCall g vs os' pth) \<longrightarrow>
           (\<forall>a \<in> set args. \<not> names_option a pth n) \<longrightarrow> n \<in> primed_names (last pth) \<longrightarrow>
           os' n = prime_options (last pth) Map.empty n"
    and "loop args command path options params index = Called (CommandCall g vs os' pth) \<longrightarrow>
           (\<forall>a \<in> set args. \<not> names_option a pth n) \<longrightarrow> n \<in> primed_names (last pth) \<longrightarrow>
           (if pth = path then os' n = options n
            else os' n = prime_options (last pth) Map.empty n)"
proof (induction "args" "command" "path" "options" and "args" "command" "path" "options" "params" "index"
       rule: parserRun_loop.induct)
  case (1 args command path options)
  have "n \<in> primed_names command \<Longrightarrow>
        prime_options command options n = prime_options command Map.empty n"
    using foldl_prime_option[of options "options_of command" n]
    by (simp add: prime_options_def primed_names_def)
  then show ?case
    using 1 by (auto split: if_splits)
next
  case (2 command path options params index)
  show ?case
    using finish_cases[OF refl, of command path options params] by auto
next
  case (3 arg rest command path options params index)
  show ?case
  proof (cases "step arg rest command path options params index")
    case (Stop r)
    then show ?thesis
      using step_Stop[OF Stop] by auto
  next
    case (Descend rest' child)
    have r: "rest' = rest"
      using step_Descend[OF Descend] by simp
    have "parserRun rest' child path options = Called (CommandCall g vs os' pth) \<Longrightarrow> pth \<noteq> path"
      using path_invariant(1)[of rest' child path options pth] by auto
    then show ?thesis
      using 3(1)[OF Descend] Descend r by auto
  next
    case (Continue rest' options' params' index')
    have s: "set rest' \<subseteq> set rest"
      using step_Continue_rest[OF Continue] .
    have f: "\<not> names_option arg path n \<Longrightarrow> options' n = options n"
      using step_options_frame[OF Continue] .
    show ?thesis
      using 3(2)[OF Continue] Continue s f by (auto split: if_splits)
  qed
qed

lemma rejected_option_default_entry:
  assumes "parserRun args command path options = Called (CommandCall g vs os' pth)"
    "opt \<in> set (options_of (last pth))" "distinct (map opt_name (options_of (last pth)))"
    "truthy (opt_default opt)" "opt_parser opt = Some p"
    "\<forall>a \<in> set args. \<not> names_option a pth (opt_name opt)"
  shows "os' (opt_name opt) = Some (p (the (opt_default opt)))"
  using leaf_entry_primed(1)[of args command path options g vs os' pth "opt_name opt"]
    prime_options_default(1)[OF assms(2) assms(3) assms(4) assms(5)]
    prime_options_default(2)[OF assms(2) assms(3) assms(4) assms(5), of Map.empty]
    assms(1) assms(6)
  by simp

text \<open>
  A slot that holds the marker of a missing parameter holds it as long as the positional
  arguments do not reach it.
\<close>

lemma positional_tl: "positional (tl rest) \<le> positional rest"
  by (cases rest) (simp_all add: positional_def)

lemma step_slot:
  assumes "step arg rest (ActionCommand nm h e os ps f) path options params index =
             Continue rest' options' params' index'"
    "j < length params" "params ! j = VNull" "index + positional (arg # rest) \<le> j"
  shows "j < length params' \<and> params' ! j = VNull \<and> index' + positional rest' \<le> j"
proof (cases "dashed arg")
  case True
  then have "positional (arg # rest) = positional rest"
    by (simp add: positional_def)
  moreover have "params' = params \<and> index' = index \<and> (rest' = rest \<or> rest' = tl rest)"
    using assms(1) True
    by (auto simp: step_def apply_option_def dashed_def Let_def
        split: if_splits sum.splits option.splits list.splits jsvalue.splits)
  ultimately show ?thesis
    using assms(2,3,4) positional_tl[of rest] by auto
next
  case False
  then have p: "positional (arg # rest) = Suc (positional rest)"
    by (simp add: positional_def)
  have "rest' = rest \<and> index \<le> index' \<and> index' \<le> Suc index
        \<and> (\<exists>v. params' = params[index := v])"
    using assms(1) False
    by (auto simp: step_def apply_parameter_def dashed_def Let_def
        split: if_splits sum.splits option.splits list.splits jsvalue.splits)
  then show ?thesis
    using assms(2,3,4) p by auto
qed

lemma leaf_slot_frame:
  "j < length params \<Longrightarrow> params ! j = VNull \<Longrightarrow> index + positional args \<le> j \<Longrightarrow> ps \<noteq> [] \<Longrightarrow>
   loop args (ActionCommand nm h e os (Some ps) f) path options params index
     \<noteq> Called (CommandCall g vs os' pth)"
proof (induction args arbitrary: options params index rule: length_induct)
  case (1 args)
  show ?case
  proof (cases args)
    case Nil
    have "VNull \<in> set params"
      using 1(2) 1(3) nth_mem by metis
    then show ?thesis
      using Nil missing_marker_fails[of params ps nm h e os f path options index] 1(5)
      by (auto simp: missing_parameter_def)
  next
    case (Cons arg rest)
    show ?thesis
    proof (cases "step arg rest (ActionCommand nm h e os (Some ps) f) path options params index")
      case (Stop r)
      then show ?thesis
        using Cons step_Stop[OF Stop] by auto
    next
      case (Descend rest' child)
      then show ?thesis
        using step_Descend[OF Descend] by simp
    next
      case (Continue rest' options' params' index')
      have l: "length rest' < length args"
        using step_Continue[OF Continue] Cons by simp
      have s: "j < length params' \<and> params' ! j = VNull \<and> index' + positional rest' \<le> j"
        using step_slot[OF Continue 1(2) 1(3)] 1(4) Cons by simp
      have "loop rest' (ActionCommand nm h e os (Some ps) f) path options' params' index'
              \<noteq> Called (CommandCall g vs os' pth)"
        using 1(1) l s 1(5) by blast
      then show ?thesis
        using Cons Continue by simp
    qed
  qed
qed

lemma rejected_parameter_default_not_called:
  assumes "j < length ps" "truthy (par_default (ps ! j))" "par_parser (ps ! j) = Some q"
    "q (the (par_default (ps ! j))) = VNull" "positional args \<le> j"
  shows "parserRun args (ActionCommand n h e os (Some ps) f) path options
           \<noteq> Called (CommandCall g vs os' pth)"
proof -
  have "map prime_parameter ps ! j = VNull"
    using assms(1) prime_parameter_default[OF assms(2) assms(3)] assms(4) by simp
  moreover have "ps \<noteq> []" using assms(1) by auto
  ultimately show ?thesis
    using leaf_slot_frame[of j "map prime_parameter ps" 0 args ps n h e os f
        "path @ [ActionCommand n h e os (Some ps) f]"
        "prime_options (ActionCommand n h e os (Some ps) f) options" g vs os' pth]
      assms(1) assms(5)
    by simp
qed

lemma indexOfNull_le:
  "j < length vs \<Longrightarrow> vs ! j = VNull \<Longrightarrow> \<exists>i \<le> j. indexOfNull vs = Some i \<and> vs ! i = VNull"
proof (induction vs arbitrary: j)
  case Nil
  then show ?case by simp
next
  case (Cons v vs)
  show ?case
  proof (cases "v = VNull")
    case True
    then show ?thesis by simp
  next
    case False
    then obtain k where k: "j = Suc k"
      using Cons.prems(2) by (cases j) auto
    then obtain i where "i \<le> k" "indexOfNull vs = Some i" "vs ! i = VNull"
      using Cons.IH[of k] Cons.prems by auto
    then show ?thesis
      using False k by (intro exI[of _ "Suc i"]) simp
  qed
qed

lemma rejected_parameter_default_missing:
  assumes "j < length ps" "truthy (par_default (ps ! j))" "par_parser (ps ! j) = Some q"
    "q (the (par_default (ps ! j))) = VNull"
  shows "\<exists>i \<le> j. prime_parameter (ps ! i) = VNull
           \<and> parserRun [] (ActionCommand n h e os (Some ps) f) path options =
               missing_parameter (path @ [ActionCommand n h e os (Some ps) f]) (ps ! i)"
proof -
  have "map prime_parameter ps ! j = VNull"
    using assms(1) prime_parameter_default[OF assms(2) assms(3)] assms(4) by simp
  then obtain i where i: "i \<le> j" "indexOfNull (map prime_parameter ps) = Some i"
    "map prime_parameter ps ! i = VNull"
    using indexOfNull_le[of j "map prime_parameter ps"] assms(1) by auto
  have "ps \<noteq> []" using assms(1) by auto
  then have "parserRun [] (ActionCommand n h e os (Some ps) f) path options =
             missing_parameter (path @ [ActionCommand n h e os (Some ps) f]) (ps ! i)"
    using i(2) by (simp add: check_parameters_def)
  moreover have "prime_parameter (ps ! i) = VNull"
    using i(1) i(3) assms(1) by simp
  ultimately show ?thesis using i(1) by blast
qed

lemma handler_gets_no_missing_marker:
  assumes "parserRun args command path options = Called (CommandCall g vs os' pth)"
    "cmd_parameters (last pth) = Some ps" "ps \<noteq> []"
  shows "VNull \<notin> set vs"
proof -
  have "check_parameters pth (Some ps) vs = None"
    using command_call_validated[OF assms(1)] assms(2) by (simp add: validated_def)
  then have "indexOfNull vs = None"
    using assms(3) by (auto simp: check_parameters_def Let_def split: option.splits if_splits)
  then show ?thesis by (simp add: indexOfNull_none)
qed

text \<open>
  C4, as the claim states it. The parser \<open>integer\<close> rejects the default \<open>http\<close> of the
  option \<open>port\<close>; the parse of no arguments throws nothing and calls the handler with
  the rejecting value stored under \<open>port\<close>. And the option \<open>mode\<close> has a parser and
  the empty string as default: priming does not apply the parser and stores nothing.
\<close>

theorem default_counterexample:
  "integer ''http'' = VNull
   \<and> parserRun [] bad_default [] Map.empty =
       Called (CommandCall (Handler ''serve'') [] [''port'' \<mapsto> VNull] [bad_default])
   \<and> opt_default mode_option = Some [] \<and> opt_parser mode_option = Some integer
   \<and> prime_option Map.empty mode_option = Map.empty"
  by (simp add: bad_default_def port_option_def mode_option_def resolver_defs parser_defs
      char_defs)

text \<open>
  C4, amended. When an option or a parameter has a non-empty default and a parser, priming
  applies the parser to the default and what it returns becomes the entry of the option
  (for a name other than \<^verbatim>\<open>__proto__\<close>) or the slot of the parameter as it is, the
  rejecting value included: priming checks nothing and throws nothing.

  For such an option of the command whose handler is called (the only option of that
  name in that command, a name other than \<^verbatim>\<open>__proto__\<close>), the entry that the handler
  gets is the parser applied to the default, the rejecting value included, whatever the
  entries before that command was entered, unless an argument names an option of that
  name on the path of that command. Such a call exists: with no arguments, an action
  command without parameters and without required options calls its handler with that
  entry.

  For a parameter, the rejecting value is the marker of a missing parameter. When the
  slot \<open>j\<close> of an action command has a rejected default and the arguments after the name
  of the command hold at most \<open>j\<close> positional ones, the handler of the command is not
  called; with no arguments the parse fails with the error of a missing parameter, for a
  parameter at or before \<open>j\<close> whose slot holds the marker. The handler of a command
  with parameters never gets the marker as a positional value.
\<close>

theorem default_parsed_unchecked:
  "(truthy (opt_default opt) \<and> opt_parser opt = Some p \<and> own_property_name (opt_name opt) \<longrightarrow>
      prime_option options opt = options(opt_name opt \<mapsto> p (the (opt_default opt))))
   \<and> (truthy (par_default par) \<and> par_parser par = Some q \<longrightarrow>
      prime_parameter par = q (the (par_default par)))
   \<and> (parserRun args command path options = Called (CommandCall g vs os' pth)
        \<and> opt \<in> set (options_of (last pth)) \<and> distinct (map opt_name (options_of (last pth)))
        \<and> truthy (opt_default opt) \<and> opt_parser opt = Some p
        \<and> own_property_name (opt_name opt)
        \<and> (\<forall>a \<in> set args. \<not> names_option a pth (opt_name opt)) \<longrightarrow>
      os' (opt_name opt) = Some (p (the (opt_default opt))))
   \<and> (opt \<in> set opts \<and> distinct (map opt_name opts) \<and> (\<forall>x \<in> set opts. \<not> opt_required x)
        \<and> truthy (opt_default opt) \<and> opt_parser opt = Some p
        \<and> own_property_name (opt_name opt) \<longrightarrow>
      (\<exists>os. parserRun [] (ActionCommand n h e (Some opts) None f) [] Map.empty =
              Called (CommandCall f [] os [ActionCommand n h e (Some opts) None f])
            \<and> os (opt_name opt) = Some (p (the (opt_default opt)))))
   \<and> (j < length ps \<and> truthy (par_default (ps ! j)) \<and> par_parser (ps ! j) = Some q
        \<and> q (the (par_default (ps ! j))) = VNull \<and> positional args \<le> j \<longrightarrow>
      parserRun args (ActionCommand n h e os (Some ps) f) path options
        \<noteq> Called (CommandCall g vs os' pth))
   \<and> (j < length ps \<and> truthy (par_default (ps ! j)) \<and> par_parser (ps ! j) = Some q
        \<and> q (the (par_default (ps ! j))) = VNull \<longrightarrow>
      (\<exists>i \<le> j. prime_parameter (ps ! i) = VNull
         \<and> parserRun [] (ActionCommand n h e os (Some ps) f) path options =
             missing_parameter (path @ [ActionCommand n h e os (Some ps) f]) (ps ! i)))
   \<and> (parserRun args command path options = Called (CommandCall g vs os' pth)
        \<and> cmd_parameters (last pth) = Some ps \<and> ps \<noteq> [] \<longrightarrow>
      VNull \<notin> set vs)"
  using prime_option_default[of opt p options] prime_parameter_default[of par q]
    rejected_option_default_entry[of args command path options g vs os' pth opt p]
    rejected_option_default_reaches_handler[of opt opts p n h e f]
    rejected_parameter_default_not_called[of j ps q args n h e os f path options g vs os' pth]
    rejected_parameter_default_missing[of j ps q n h e os f path options]
    handler_gets_no_missing_marker[of args command path options g vs os' pth ps]
  by blast

text \<open>
  The option \<open>port\<close> and the parameter \<open>level\<close>, whose defaults the parser
  \<open>integer\<close> rejects. From the root \<open>net\<close>, whose own option \<open>port\<close> has the
  default \<open>80\<close>, the argument \<open>serve\<close> ends in the call of the handler of \<open>serve\<close>
  with the rejecting value under \<open>port\<close>. The command \<open>lift\<close> with one positional
  argument fails with the error of the missing parameter \<open>level\<close>; with two, its
  handler is called with the value of the second.
\<close>

theorem default_parsed_unchecked_witness:
  "truthy (opt_default port_option) \<and> opt_parser port_option = Some integer
   \<and> own_property_name (opt_name port_option)
   \<and> integer ''http'' = VNull
   \<and> prime_option [''port'' \<mapsto> VNum (Finite 80)] port_option = [''port'' \<mapsto> VNull]
   \<and> truthy (par_default level_parameter) \<and> par_parser level_parameter = Some integer
   \<and> integer ''high'' = VNull
   \<and> prime_parameter level_parameter = VNull
   \<and> parserRun [''serve''] bad_root [] Map.empty =
       Called (CommandCall (Handler ''serve'') [] [''port'' \<mapsto> VNull] [bad_root, bad_default])
   \<and> port_option \<in> set (options_of (last [bad_root, bad_default]))
   \<and> distinct (map opt_name (options_of (last [bad_root, bad_default])))
   \<and> \<not> names_option ''serve'' [bad_root, bad_default] ''port''
   \<and> [''port'' \<mapsto> VNull] (opt_name port_option) = Some (integer ''http'')
   \<and> \<not> opt_required port_option
   \<and> (\<exists>os. parserRun [] bad_default [] Map.empty =
             Called (CommandCall (Handler ''serve'') [] os [bad_default])
           \<and> os ''port'' = Some (integer ''http''))
   \<and> [parameter_named ''file'', level_parameter] ! 1 = level_parameter
   \<and> positional [''a''] \<le> 1
   \<and> parserRun [''a''] lift [] Map.empty = missing_parameter [lift] level_parameter
   \<and> parserRun [''a''] lift [] Map.empty
       \<noteq> Called (CommandCall (Handler ''lift'') [VStr ''a'', VNull] Map.empty [lift])
   \<and> parserRun [] bad_parameter_default [] Map.empty =
       missing_parameter [bad_parameter_default] level_parameter
   \<and> parserRun [''a'', ''3''] lift [] Map.empty =
       Called (CommandCall (Handler ''lift'') [VStr ''a'', VNum (Finite 3)] Map.empty [lift])
   \<and> cmd_parameters (last [lift]) = Some [parameter_named ''file'', level_parameter]
   \<and> VNull \<notin> set [VStr ''a'', VNum (Finite 3)]"
proof -
  have h1: "truthy (opt_default port_option) \<and> opt_parser port_option = Some integer
            \<and> \<not> opt_required port_option \<and> opt_name port_option = ''port''
            \<and> opt_default port_option = Some ''http''
            \<and> own_property_name (opt_name port_option)"
    by (simp add: port_option_def option_named_def truthy_def own_property_name_def)
  have h2: "truthy (par_default level_parameter) \<and> par_parser level_parameter = Some integer
            \<and> par_default level_parameter = Some ''high''"
    by (simp add: level_parameter_def parameter_named_def truthy_def)
  have h3: "integer ''high'' = VNull \<and> integer ''http'' = VNull"
    by (simp add: parser_defs char_defs)
  have h4: "parserRun [''serve''] bad_root [] Map.empty =
       Called (CommandCall (Handler ''serve'') [] [''port'' \<mapsto> VNull] [bad_root, bad_default])"
    by (simp add: bad_root_def bad_default_def port_option_def resolver_defs parser_defs
        char_defs)
  have h5: "port_option \<in> set (options_of (last [bad_root, bad_default]))
            \<and> distinct (map opt_name (options_of (last [bad_root, bad_default])))
            \<and> \<not> names_option ''serve'' [bad_root, bad_default] ''port''"
    by (simp add: bad_default_def options_of_def names_option_def dashed_def)
  have h6: "positional [''a''] \<le> 1 \<and> positional [] = 0"
    by (simp add: positional_def dashed_def)
  have h7: "parserRun [''a''] lift [] Map.empty = missing_parameter [lift] level_parameter"
    by (simp add: lift_def level_parameter_def resolver_defs parser_defs char_defs)
  have h8: "parserRun [''a'', ''3''] lift [] Map.empty =
       Called (CommandCall (Handler ''lift'') [VStr ''a'', VNum (Finite 3)] Map.empty [lift])"
    by (simp add: lift_def level_parameter_def resolver_defs parser_defs char_defs)
  have h9: "cmd_parameters (last [lift]) = Some [parameter_named ''file'', level_parameter]"
    by (simp add: lift_def)
  note A = default_parsed_unchecked[where opt = port_option and p = integer
        and options = "[''port'' \<mapsto> VNum (Finite 80)]", THEN conjunct1]
  note B = default_parsed_unchecked[where par = level_parameter and q = integer,
        THEN conjunct2, THEN conjunct1]
  note C = default_parsed_unchecked[where opt = port_option and p = integer
        and args = "[''serve'']" and command = bad_root and path = "[]" and options = Map.empty
        and g = "Handler ''serve''" and vs = "[]" and os' = "[''port'' \<mapsto> VNull]"
        and pth = "[bad_root, bad_default]",
        THEN conjunct2, THEN conjunct2, THEN conjunct1]
  note D = default_parsed_unchecked[where opt = port_option and p = integer
        and opts = "[port_option]"
        and n = "''serve''" and h = None and e = None and f = "Handler ''serve''",
        THEN conjunct2, THEN conjunct2, THEN conjunct2, THEN conjunct1]
  note E = default_parsed_unchecked[where j = 1
        and ps = "[parameter_named ''file'', level_parameter]"
        and q = integer and args = "[''a'']"
        and n = "''lift''" and h = None and e = None and os = None and f = "Handler ''lift''"
        and path = "[]" and options = Map.empty
        and g = "Handler ''lift''" and vs = "[VStr ''a'', VNull]" and os' = Map.empty
        and pth = "[lift]",
        THEN conjunct2, THEN conjunct2, THEN conjunct2, THEN conjunct2, THEN conjunct1]
  note F = default_parsed_unchecked[where j = 0 and ps = "[level_parameter]"
        and q = integer
        and n = "''raise''" and h = None and e = None and os = None and f = "Handler ''raise''"
        and path = "[]" and options = Map.empty,
        THEN conjunct2, THEN conjunct2, THEN conjunct2, THEN conjunct2, THEN conjunct2,
        THEN conjunct1]
  note G = default_parsed_unchecked[where args = "[''a'', ''3'']" and command = lift
        and path = "[]"
        and options = Map.empty and g = "Handler ''lift''"
        and vs = "[VStr ''a'', VNum (Finite 3)]" and os' = Map.empty and pth = "[lift]"
        and ps = "[parameter_named ''file'', level_parameter]",
        THEN conjunct2, THEN conjunct2, THEN conjunct2, THEN conjunct2, THEN conjunct2,
        THEN conjunct2]
  have a: "prime_option [''port'' \<mapsto> VNum (Finite 80)] port_option = [''port'' \<mapsto> VNull]"
    using A h1 h3 by (simp add: truthy_def own_property_name_def)
  have b: "prime_parameter level_parameter = VNull"
    using B h2 h3 by (simp add: truthy_def)
  have c: "[''port'' \<mapsto> VNull] (opt_name port_option) = Some (integer ''http'')"
    using C h1 h3 h4 h5 by (simp del: parserRun.simps add: truthy_def own_property_name_def)
  have d: "\<exists>os. parserRun [] bad_default [] Map.empty =
             Called (CommandCall (Handler ''serve'') [] os [bad_default])
           \<and> os ''port'' = Some (integer ''http'')"
    using D h1 h3
    by (simp del: parserRun.simps add: bad_default_def[symmetric] truthy_def own_property_name_def)
  have e: "parserRun [''a''] lift [] Map.empty
       \<noteq> Called (CommandCall (Handler ''lift'') [VStr ''a'', VNull] Map.empty [lift])"
    using E h2 h3 h6 by (simp del: parserRun.simps add: lift_def[symmetric] truthy_def)
  have f: "parserRun [] bad_parameter_default [] Map.empty =
       missing_parameter [bad_parameter_default] level_parameter"
    using F h2 h3
    by (simp del: parserRun.simps add: bad_parameter_default_def[symmetric] truthy_def)
  have g: "VNull \<notin> set [VStr ''a'', VNum (Finite 3)]"
    using G h8 h9 by (simp del: parserRun.simps)
  show ?thesis
    using h1 h2 h3 h4 h5 h6 h7 h8 h9 a b c d e f g
    by (simp del: parserRun.simps loop.simps add: truthy_def own_property_name_def)
qed

end
